theory Spec2Isabelle
  imports Main "HOL-Library.Word"
begin

section \<open>JavaScript strings and errors\<close>

text \<open>
  A JavaScript string is a sequence of 16-bit code units. The library functions below
  read the code units as numbers (\<open>map unat\<close>) and work on lists of code units, code
  points or bytes. A value of type \<open>string | null\<close> is a \<open>jsstring option\<close>; it is
  falsy when it is \<open>null\<close> or the empty string.

  \<open>encodeURIComponent\<close> and \<open>decodeURIComponent\<close> are modelled after ECMAScript
  (the abstract operations Encode and Decode), \<open>URL\<close> and \<open>URLSearchParams\<close> after the
  URL Standard and the UTF-8 decoder of the Encoding Standard. The exceptions they raise
  are values of \<open>js_error\<close>.
\<close>

type_synonym jsstring = "16 word list"

definition ascii :: "string \<Rightarrow> nat list" where
  "ascii s = map of_char s"

definition js :: "string \<Rightarrow> jsstring" where
  "js s = map of_nat (ascii s)"

datatype js_error = TypeError | URIError

section \<open>Code units, code points, bytes\<close>

text \<open>
  \<open>CodePoints\<close> reads a string the way ECMAScript's CodePointAt does, from left to
  right: a lead surrogate followed by a trail surrogate is one code point, any other
  surrogate is a code point of its own, flagged as unpaired.
\<close>

definition is_lead :: "nat \<Rightarrow> bool" where
  "is_lead u \<longleftrightarrow> 0xD800 \<le> u \<and> u \<le> 0xDBFF"

definition is_trail :: "nat \<Rightarrow> bool" where
  "is_trail u \<longleftrightarrow> 0xDC00 \<le> u \<and> u \<le> 0xDFFF"

definition is_surrogate :: "nat \<Rightarrow> bool" where
  "is_surrogate u \<longleftrightarrow> 0xD800 \<le> u \<and> u \<le> 0xDFFF"

definition UTF16SurrogatePairToCodePoint :: "nat \<Rightarrow> nat \<Rightarrow> nat" where
  "UTF16SurrogatePairToCodePoint lead trail =
     (lead - 0xD800) * 0x400 + (trail - 0xDC00) + 0x10000"

fun CodePoints :: "nat list \<Rightarrow> (nat \<times> bool) list" where
  "CodePoints [] = []"
| "CodePoints [u] = [(u, is_surrogate u)]"
| "CodePoints (u # v # us) =
     (if is_lead u \<and> is_trail v
      then (UTF16SurrogatePairToCodePoint u v, False) # CodePoints us
      else (u, is_surrogate u) # CodePoints (v # us))"

definition UTF16EncodeCodePoint :: "nat \<Rightarrow> nat list" where
  "UTF16EncodeCodePoint cp =
     (if cp \<le> 0xFFFF then [cp]
      else [(cp - 0x10000) div 0x400 + 0xD800, (cp - 0x10000) mod 0x400 + 0xDC00])"

definition utf8_encode :: "nat \<Rightarrow> nat list" where
  "utf8_encode cp =
     (if cp \<le> 0x7F then [cp]
      else if cp \<le> 0x7FF then [0xC0 + cp div 0x40, 0x80 + cp mod 0x40]
      else if cp \<le> 0xFFFF then
        [0xE0 + cp div 0x1000, 0x80 + cp div 0x40 mod 0x40, 0x80 + cp mod 0x40]
      else [0xF0 + cp div 0x40000, 0x80 + cp div 0x1000 mod 0x40,
            0x80 + cp div 0x40 mod 0x40, 0x80 + cp mod 0x40])"

definition ascii_digit :: "nat \<Rightarrow> bool" where
  "ascii_digit c \<longleftrightarrow> 0x30 \<le> c \<and> c \<le> 0x39"

definition ascii_upper_alpha :: "nat \<Rightarrow> bool" where
  "ascii_upper_alpha c \<longleftrightarrow> 0x41 \<le> c \<and> c \<le> 0x5A"

definition ascii_lower_alpha :: "nat \<Rightarrow> bool" where
  "ascii_lower_alpha c \<longleftrightarrow> 0x61 \<le> c \<and> c \<le> 0x7A"

definition ascii_alpha :: "nat \<Rightarrow> bool" where
  "ascii_alpha c \<longleftrightarrow> ascii_upper_alpha c \<or> ascii_lower_alpha c"

definition ascii_alphanumeric :: "nat \<Rightarrow> bool" where
  "ascii_alphanumeric c \<longleftrightarrow> ascii_digit c \<or> ascii_alpha c"

definition ascii_lowercase :: "nat \<Rightarrow> nat" where
  "ascii_lowercase c = (if ascii_upper_alpha c then c + 0x20 else c)"

definition ascii_hex_digit :: "nat \<Rightarrow> bool" where
  "ascii_hex_digit c \<longleftrightarrow>
     ascii_digit c \<or> (0x41 \<le> c \<and> c \<le> 0x46) \<or> (0x61 \<le> c \<and> c \<le> 0x66)"

definition hex_value :: "nat \<Rightarrow> nat" where
  "hex_value c =
     (if ascii_digit c then c - 0x30 else if c \<le> 0x46 then c - 0x37 else c - 0x57)"

definition hex_digit :: "nat \<Rightarrow> nat" where
  "hex_digit d = (if d < 10 then 0x30 + d else 0x37 + d)"

definition percent_encode_byte :: "nat \<Rightarrow> nat list" where
  "percent_encode_byte b = [0x25, hex_digit (b div 16), hex_digit (b mod 16)]"

definition utf8_percent_encode :: "nat \<Rightarrow> nat list" where
  "utf8_percent_encode cp = concat (map percent_encode_byte (utf8_encode cp))"

definition hex_octet :: "nat list \<Rightarrow> nat option" where
  "hex_octet s =
     (case s of
        h1 # h2 # _ \<Rightarrow>
          if ascii_hex_digit h1 \<and> ascii_hex_digit h2
          then Some (16 * hex_value h1 + hex_value h2) else None
      | _ \<Rightarrow> None)"

section \<open>encodeURIComponent, decodeURIComponent\<close>

text \<open>
  Encode with the unescaped set of \<open>encodeURIComponent\<close> (letters, digits and
  \<open>- _ . ! ~ * ' ( )\<close>): every other code point is written as the percent-encoded
  bytes of its UTF-8 form, and an unpaired surrogate raises URIError.

  Decode with an empty preserved set: \<open>%XX\<close> is read as a byte; a byte with leading
  one bits starts a UTF-8 sequence whose other bytes must follow as \<open>%XX\<close> each, and
  the sequence must be the UTF-8 form of a code point. Everything else raises URIError.
  The recursive calls skip the code units read (\<open>drop\<close>), as the index \<open>k\<close> of the
  specification does.
\<close>

definition uriUnescaped :: "nat \<Rightarrow> bool" where
  "uriUnescaped c \<longleftrightarrow>
     ascii_alphanumeric c \<or> c \<in> set [0x2D, 0x5F, 0x2E, 0x21, 0x7E, 0x2A, 0x27, 0x28, 0x29]"

fun Encode :: "(nat \<times> bool) list \<Rightarrow> js_error + nat list" where
  "Encode [] = Inr []"
| "Encode ((cp, unpaired) # rest) =
     (if uriUnescaped cp then
        (case Encode rest of Inl e \<Rightarrow> Inl e | Inr R \<Rightarrow> Inr (cp # R))
      else if unpaired then Inl URIError
      else
        (case Encode rest of Inl e \<Rightarrow> Inl e | Inr R \<Rightarrow> Inr (utf8_percent_encode cp @ R)))"

definition encodeURIComponent :: "jsstring \<Rightarrow> js_error + jsstring" where
  "encodeURIComponent s =
     (case Encode (CodePoints (map unat s)) of
        Inl e \<Rightarrow> Inl e
      | Inr R \<Rightarrow> Inr (map of_nat R))"

definition leading_ones :: "nat \<Rightarrow> nat" where
  "leading_ones B =
     (if B < 0x80 then 0 else if B < 0xC0 then 1 else if B < 0xE0 then 2
      else if B < 0xF0 then 3 else if B < 0xF8 then 4 else if B < 0xFC then 5
      else if B < 0xFE then 6 else if B < 0xFF then 7 else 8)"

fun continuation_octets :: "nat \<Rightarrow> nat list \<Rightarrow> nat list option" where
  "continuation_octets 0 s = Some []"
| "continuation_octets (Suc j) [] = None"
| "continuation_octets (Suc j) (c # cs) =
     (if c \<noteq> 0x25 then None
      else case hex_octet cs of
             None \<Rightarrow> None
           | Some b \<Rightarrow>
              (case continuation_octets j (drop 2 cs) of
                 None \<Rightarrow> None
               | Some bs \<Rightarrow> Some (b # bs)))"

definition second_byte_range :: "nat \<Rightarrow> nat \<times> nat" where
  "second_byte_range b0 =
     (if b0 = 0xE0 then (0xA0, 0xBF) else if b0 = 0xED then (0x80, 0x9F)
      else if b0 = 0xF0 then (0x90, 0xBF) else if b0 = 0xF4 then (0x80, 0x8F)
      else (0x80, 0xBF))"

definition continuation_byte :: "nat \<Rightarrow> bool" where
  "continuation_byte b \<longleftrightarrow> 0x80 \<le> b \<and> b \<le> 0xBF"

fun utf8_code_point :: "nat list \<Rightarrow> nat option" where
  "utf8_code_point [b0, b1] =
     (if 0xC2 \<le> b0 \<and> b0 \<le> 0xDF \<and> continuation_byte b1
      then Some ((b0 - 0xC0) * 0x40 + (b1 - 0x80)) else None)"
| "utf8_code_point [b0, b1, b2] =
     (if 0xE0 \<le> b0 \<and> b0 \<le> 0xEF \<and> fst (second_byte_range b0) \<le> b1
         \<and> b1 \<le> snd (second_byte_range b0) \<and> continuation_byte b2
      then Some ((b0 - 0xE0) * 0x1000 + (b1 - 0x80) * 0x40 + (b2 - 0x80)) else None)"
| "utf8_code_point [b0, b1, b2, b3] =
     (if 0xF0 \<le> b0 \<and> b0 \<le> 0xF4 \<and> fst (second_byte_range b0) \<le> b1
         \<and> b1 \<le> snd (second_byte_range b0) \<and> continuation_byte b2 \<and> continuation_byte b3
      then Some ((b0 - 0xF0) * 0x40000 + (b1 - 0x80) * 0x1000 + (b2 - 0x80) * 0x40 + (b3 - 0x80))
      else None)"
| "utf8_code_point _ = None"

function Decode :: "nat list \<Rightarrow> js_error + nat list" where
  "Decode [] = Inr []"
| "Decode (C # rest) =
     (if C \<noteq> 0x25 then
        (case Decode rest of Inl e \<Rightarrow> Inl e | Inr R \<Rightarrow> Inr (C # R))
      else case hex_octet rest of
             None \<Rightarrow> Inl URIError
           | Some B \<Rightarrow>
              if leading_ones B = 0 then
                (case Decode (drop 2 rest) of Inl e \<Rightarrow> Inl e | Inr R \<Rightarrow> Inr (B # R))
              else if leading_ones B = 1 \<or> leading_ones B > 4 then Inl URIError
              else case continuation_octets (leading_ones B - 1) (drop 2 rest) of
                     None \<Rightarrow> Inl URIError
                   | Some Octets \<Rightarrow>
                      (case utf8_code_point (B # Octets) of
                         None \<Rightarrow> Inl URIError
                       | Some V \<Rightarrow>
                          (case Decode (drop (2 + 3 * (leading_ones B - 1)) rest) of
                             Inl e \<Rightarrow> Inl e
                           | Inr R \<Rightarrow> Inr (UTF16EncodeCodePoint V @ R))))"
  by pat_completeness auto
termination
  by (relation "measure length") auto

definition decodeURIComponent :: "jsstring \<Rightarrow> js_error + jsstring" where
  "decodeURIComponent s =
     (case Decode (map unat s) of
        Inl e \<Rightarrow> Inl e
      | Inr R \<Rightarrow> Inr (map of_nat R))"

section \<open>URL Standard: percent-decoding, UTF-8 decoding\<close>

text \<open>
  Percent-decoding never fails: a \<open>%\<close> that two hexadecimal digits do not follow stays
  as it is. The UTF-8 decoder replaces every ill-formed sequence by U+FFFD; its state is
  the code point read so far, the number of bytes still needed and the bounds of the
  next byte. A byte out of bounds ends the sequence and is read again.
\<close>

fun percent_decode :: "nat list \<Rightarrow> nat list" where
  "percent_decode (b # h1 # h2 # rest) =
     (if b = 0x25 \<and> ascii_hex_digit h1 \<and> ascii_hex_digit h2
      then (16 * hex_value h1 + hex_value h2) # percent_decode rest
      else b # percent_decode (h1 # h2 # rest))"
| "percent_decode (b # rest) = b # percent_decode rest"
| "percent_decode [] = []"

fun utf8_decoder :: "nat \<Rightarrow> nat \<Rightarrow> nat \<Rightarrow> nat \<Rightarrow> nat list \<Rightarrow> nat list" where
  "utf8_decoder cp needed lower upper [] = (if needed = 0 then [] else [0xFFFD])"
| "utf8_decoder cp needed lower upper (b # bs) =
     (if needed = 0 then
        (if b \<le> 0x7F then b # utf8_decoder 0 0 0x80 0xBF bs
         else if 0xC2 \<le> b \<and> b \<le> 0xDF then utf8_decoder (b mod 0x20) 1 0x80 0xBF bs
         else if 0xE0 \<le> b \<and> b \<le> 0xEF then
           utf8_decoder (b mod 0x10) 2 (fst (second_byte_range b)) (snd (second_byte_range b)) bs
         else if 0xF0 \<le> b \<and> b \<le> 0xF4 then
           utf8_decoder (b mod 0x08) 3 (fst (second_byte_range b)) (snd (second_byte_range b)) bs
         else 0xFFFD # utf8_decoder 0 0 0x80 0xBF bs)
      else if b < lower \<or> upper < b then 0xFFFD # utf8_decoder 0 0 0x80 0xBF (b # bs)
      else if needed = 1 then (cp * 0x40 + b mod 0x40) # utf8_decoder 0 0 0x80 0xBF bs
      else utf8_decoder (cp * 0x40 + b mod 0x40) (needed - 1) 0x80 0xBF bs)"

definition utf8_decode_without_BOM :: "nat list \<Rightarrow> nat list" where
  "utf8_decode_without_BOM bytes = utf8_decoder 0 0 0x80 0xBF bytes"

section \<open>URL Standard: the URL parser\<close>

text \<open>
  \<open>new URL(s)\<close> with no base. The argument is converted to scalar values (an unpaired
  surrogate becomes U+FFFD) and parsed by the basic URL parser; a failure is a TypeError.
  The record keeps what the application reads from the URL object: the scheme, the
  serialised host and the query. Credentials, port, path and fragment are parsed (a bad
  port is a failure) and not kept.

  The states of the parser are functions on the input that is left. The parser is
  written as a pointer that moves over the input; here each state takes the input up to
  the code point that ends it (\<open>takeWhile\<close>) and hands the rest on (\<open>dropWhile\<close>).

  Two algorithms of the host parser depend on tables of the Unicode and IDNA standards
  and on the IPv4 and IPv6 parsers. They are parameters: \<open>ipv6_host\<close> is the IPv6
  parser followed by the host serialiser, applied to what stands between \<open>[\<close> and
  \<open>]\<close>; \<open>domain_host\<close> is the host parser of a special scheme on an input that does
  not start with \<open>[\<close> (percent-decoding, domain to ASCII, forbidden code points, IPv4),
  followed by the host serialiser. Every theorem below holds for all such parameters.
\<close>

definition scalar_values :: "nat list \<Rightarrow> nat list" where
  "scalar_values us = map (\<lambda>(cp, unpaired). if unpaired then 0xFFFD else cp) (CodePoints us)"

definition to_js :: "nat list \<Rightarrow> jsstring" where
  "to_js cps = map of_nat (concat (map UTF16EncodeCodePoint cps))"

record host_env =
  ipv6_host :: "nat list \<Rightarrow> nat list option"
  domain_host :: "nat list \<Rightarrow> nat list option"

record url =
  url_scheme :: "nat list"
  url_host :: "nat list option"
  url_query :: "nat list option"

text \<open>Leading and trailing C0 controls and spaces go, and every tab and newline.\<close>

definition c0_control_or_space :: "nat \<Rightarrow> bool" where
  "c0_control_or_space c \<longleftrightarrow> c \<le> 0x20"

definition ascii_tab_or_newline :: "nat \<Rightarrow> bool" where
  "ascii_tab_or_newline c \<longleftrightarrow> c = 0x09 \<or> c = 0x0A \<or> c = 0x0D"

definition url_input :: "nat list \<Rightarrow> nat list" where
  "url_input inp =
     filter (\<lambda>c. \<not> ascii_tab_or_newline c)
       (rev (dropWhile c0_control_or_space (rev (dropWhile c0_control_or_space inp))))"

text \<open>The percent-encode sets of the opaque host and of the query.\<close>

definition c0_control_set :: "nat \<Rightarrow> bool" where
  "c0_control_set c \<longleftrightarrow> c \<le> 0x1F \<or> 0x7E < c"

definition query_set :: "nat \<Rightarrow> bool" where
  "query_set c \<longleftrightarrow> c0_control_set c \<or> c \<in> set [0x20, 0x22, 0x23, 0x3C, 0x3E]"

definition special_query_set :: "nat \<Rightarrow> bool" where
  "special_query_set c \<longleftrightarrow> query_set c \<or> c = 0x27"

definition percent_encode_with :: "(nat \<Rightarrow> bool) \<Rightarrow> nat list \<Rightarrow> nat list" where
  "percent_encode_with S cps =
     concat (map (\<lambda>cp. if S cp then utf8_percent_encode cp else [cp]) cps)"

definition forbidden_host_code_point :: "nat \<Rightarrow> bool" where
  "forbidden_host_code_point c \<longleftrightarrow>
     c \<in> set [0x00, 0x09, 0x0A, 0x0D, 0x20, 0x23, 0x2F, 0x3A, 0x3C, 0x3E, 0x3F, 0x40,
              0x5B, 0x5C, 0x5D, 0x5E, 0x7C]"

definition opaque_host_parser :: "nat list \<Rightarrow> nat list option" where
  "opaque_host_parser inp =
     (if list_ex forbidden_host_code_point inp then None
      else Some (percent_encode_with c0_control_set inp))"

definition host_parser :: "host_env \<Rightarrow> bool \<Rightarrow> nat list \<Rightarrow> nat list option" where
  "host_parser he isOpaque inp =
     (case inp of
        c # cs \<Rightarrow>
          if c = 0x5B then (if last inp \<noteq> 0x5D then None else ipv6_host he (butlast cs))
          else if isOpaque then opaque_host_parser inp
          else domain_host he inp
      | [] \<Rightarrow> if isOpaque then opaque_host_parser inp else domain_host he inp)"

fun scheme_state :: "nat list \<Rightarrow> nat list \<Rightarrow> (nat list \<times> nat list) option" where
  "scheme_state buffer [] = None"
| "scheme_state buffer (c # rest) =
     (if ascii_alphanumeric c \<or> c = 0x2B \<or> c = 0x2D \<or> c = 0x2E
      then scheme_state (buffer @ [ascii_lowercase c]) rest
      else if c = 0x3A then Some (buffer, rest)
      else None)"

definition scheme_start_state :: "nat list \<Rightarrow> (nat list \<times> nat list) option" where
  "scheme_start_state inp =
     (case inp of
        c # rest \<Rightarrow> if ascii_alpha c then scheme_state [ascii_lowercase c] rest else None
      | [] \<Rightarrow> None)"

definition is_special :: "nat list \<Rightarrow> bool" where
  "is_special sch \<longleftrightarrow>
     sch \<in> set (map ascii [''ftp'', ''file'', ''http'', ''https'', ''ws'', ''wss''])"

text \<open>
  Path start, path and opaque path state: the query starts at the first \<open>?\<close> before any
  \<open>#\<close> and ends at the first \<open>#\<close>.
\<close>

definition query_state :: "bool \<Rightarrow> nat list \<Rightarrow> nat list" where
  "query_state special rest =
     percent_encode_with (if special then special_query_set else query_set)
       (takeWhile (\<lambda>c. c \<noteq> 0x23) rest)"

definition path_state :: "bool \<Rightarrow> nat list \<Rightarrow> nat list option" where
  "path_state special rest =
     (case dropWhile (\<lambda>c. c \<noteq> 0x3F \<and> c \<noteq> 0x23) rest of
        c # cs \<Rightarrow> if c = 0x3F then Some (query_state special cs) else None
      | [] \<Rightarrow> None)"

text \<open>
  The authority ends at \<open>/\<close>, \<open>?\<close>, \<open>#\<close> or the end of input (for a special scheme
  also at a backslash); the host starts after its last \<open>@\<close>. The host state reads up to a
  colon outside brackets, and the port state accepts digits only, at most 65535.
\<close>

definition authority_end :: "bool \<Rightarrow> nat \<Rightarrow> bool" where
  "authority_end special c \<longleftrightarrow> c = 0x2F \<or> c = 0x3F \<or> c = 0x23 \<or> (special \<and> c = 0x5C)"

fun host_buffer :: "bool \<Rightarrow> nat list \<Rightarrow> nat list \<Rightarrow> nat list \<times> nat list option" where
  "host_buffer insideBrackets buffer [] = (buffer, None)"
| "host_buffer insideBrackets buffer (c # rest) =
     (if c = 0x3A \<and> \<not> insideBrackets then (buffer, Some rest)
      else host_buffer (if c = 0x5B then True else if c = 0x5D then False else insideBrackets)
             (buffer @ [c]) rest)"

definition port_state :: "nat list \<Rightarrow> bool" where
  "port_state buffer \<longleftrightarrow>
     list_all ascii_digit buffer \<and>
     (buffer = [] \<or> foldl (\<lambda>n d. 10 * n + (d - 0x30)) 0 buffer \<le> 65535)"

definition host_state :: "host_env \<Rightarrow> bool \<Rightarrow> nat list \<Rightarrow> nat list option" where
  "host_state he special hostport =
     (case host_buffer False [] hostport of
        (buffer, Some port) \<Rightarrow>
          if buffer = [] then None
          else (case host_parser he (\<not> special) buffer of
                  None \<Rightarrow> None
                | Some h \<Rightarrow> if port_state port then Some h else None)
      | (buffer, None) \<Rightarrow>
          if special \<and> buffer = [] then None else host_parser he (\<not> special) buffer)"

definition authority_state ::
  "host_env \<Rightarrow> nat list \<Rightarrow> nat list \<Rightarrow> url option" where
  "authority_state he sch rest =
     (let special = is_special sch;
          authority = takeWhile (\<lambda>c. \<not> authority_end special c) rest;
          remaining = dropWhile (\<lambda>c. \<not> authority_end special c) rest;
          buffer = rev (takeWhile (\<lambda>c. c \<noteq> 0x40) (rev authority))
      in if 0x40 \<in> set authority \<and> buffer = [] then None
         else case host_state he special buffer of
                None \<Rightarrow> None
              | Some h \<Rightarrow>
                  Some \<lparr>url_scheme = sch, url_host = Some h,
                        url_query = path_state special remaining\<rparr>)"

definition special_authority_slashes_state ::
  "host_env \<Rightarrow> nat list \<Rightarrow> nat list \<Rightarrow> url option" where
  "special_authority_slashes_state he sch rest =
     authority_state he sch
       (dropWhile (\<lambda>c. c = 0x2F \<or> c = 0x5C)
          (if take 2 rest = [0x2F, 0x2F] then drop 2 rest else rest))"

definition path_or_authority_state ::
  "host_env \<Rightarrow> nat list \<Rightarrow> nat list \<Rightarrow> url option" where
  "path_or_authority_state he sch rest =
     (case rest of
        c # cs \<Rightarrow>
          if c = 0x2F then authority_state he sch cs
          else Some \<lparr>url_scheme = sch, url_host = None, url_query = path_state False rest\<rparr>
      | [] \<Rightarrow> Some \<lparr>url_scheme = sch, url_host = None, url_query = None\<rparr>)"

text \<open>The states of the \<open>file\<close> scheme.\<close>

definition windows_drive_letter :: "nat list \<Rightarrow> bool" where
  "windows_drive_letter buffer \<longleftrightarrow>
     (case buffer of [a, b] \<Rightarrow> ascii_alpha a \<and> (b = 0x3A \<or> b = 0x7C) | _ \<Rightarrow> False)"

definition file_host_end :: "nat \<Rightarrow> bool" where
  "file_host_end c \<longleftrightarrow> c = 0x2F \<or> c = 0x5C \<or> c = 0x3F \<or> c = 0x23"

definition file_host_state :: "host_env \<Rightarrow> nat list \<Rightarrow> url option" where
  "file_host_state he rest =
     (let buffer = takeWhile (\<lambda>c. \<not> file_host_end c) rest;
          remaining = dropWhile (\<lambda>c. \<not> file_host_end c) rest;
          q = path_state True remaining
      in if windows_drive_letter buffer \<or> buffer = []
         then Some \<lparr>url_scheme = ascii ''file'', url_host = Some [], url_query = q\<rparr>
         else case host_parser he False buffer of
                None \<Rightarrow> None
              | Some h \<Rightarrow>
                  Some \<lparr>url_scheme = ascii ''file'',
                        url_host = Some (if h = ascii ''localhost'' then [] else h),
                        url_query = q\<rparr>)"

definition file_state :: "host_env \<Rightarrow> nat list \<Rightarrow> url option" where
  "file_state he rest =
     (if take 1 rest = [0x2F] \<or> take 1 rest = [0x5C] then
        (if take 1 (drop 1 rest) = [0x2F] \<or> take 1 (drop 1 rest) = [0x5C]
         then file_host_state he (drop 2 rest)
         else Some \<lparr>url_scheme = ascii ''file'', url_host = Some [],
                    url_query = path_state True (drop 1 rest)\<rparr>)
      else Some \<lparr>url_scheme = ascii ''file'', url_host = Some [],
                 url_query = path_state True rest\<rparr>)"

definition basic_URL_parser :: "host_env \<Rightarrow> nat list \<Rightarrow> url option" where
  "basic_URL_parser he inp =
     (case scheme_start_state (url_input inp) of
        None \<Rightarrow> None
      | Some (sch, rest) \<Rightarrow>
          if sch = ascii ''file'' then file_state he rest
          else if is_special sch then special_authority_slashes_state he sch rest
          else if take 1 rest = [0x2F] then path_or_authority_state he sch (drop 1 rest)
          else Some \<lparr>url_scheme = sch, url_host = None, url_query = path_state False rest\<rparr>)"

definition URL_new :: "host_env \<Rightarrow> jsstring \<Rightarrow> js_error + url" where
  "URL_new he s =
     (case basic_URL_parser he (scalar_values (map unat s)) of
        None \<Rightarrow> Inl TypeError
      | Some u \<Rightarrow> Inr u)"

definition protocol :: "url \<Rightarrow> jsstring" where
  "protocol u = to_js (url_scheme u @ [0x3A])"

definition hostname :: "url \<Rightarrow> jsstring" where
  "hostname u = to_js (case url_host u of None \<Rightarrow> [] | Some h \<Rightarrow> h)"

section \<open>URL Standard: URLSearchParams\<close>

text \<open>
  \<open>u.searchParams\<close> is the list of name-value pairs the
  \<open>application/x-www-form-urlencoded\<close> parser reads from the query (an ASCII string):
  split at \<open>&\<close>, then at the first \<open>=\<close>; \<open>+\<close> is a space; names and values are
  percent-decoded and UTF-8 decoded. \<open>get\<close> returns the value of the first pair with
  the name, or \<open>null\<close>.
\<close>

fun split_on :: "nat \<Rightarrow> nat list \<Rightarrow> nat list list" where
  "split_on d [] = [[]]"
| "split_on d (b # bs) =
     (if b = d then [] # split_on d bs
      else (case split_on d bs of s # ss \<Rightarrow> (b # s) # ss | [] \<Rightarrow> [[b]]))"

definition urlencoded_string :: "nat list \<Rightarrow> nat list" where
  "urlencoded_string bytes =
     utf8_decode_without_BOM (percent_decode (map (\<lambda>b. if b = 0x2B then 0x20 else b) bytes))"

definition urlencoded_parser :: "nat list \<Rightarrow> (nat list \<times> nat list) list" where
  "urlencoded_parser inp =
     map (\<lambda>bytes.
            if 0x3D \<in> set bytes
            then (urlencoded_string (takeWhile (\<lambda>b. b \<noteq> 0x3D) bytes),
                  urlencoded_string (drop 1 (dropWhile (\<lambda>b. b \<noteq> 0x3D) bytes)))
            else (urlencoded_string bytes, urlencoded_string []))
       (filter (\<lambda>bytes. bytes \<noteq> []) (split_on 0x26 inp))"

definition searchParams :: "url \<Rightarrow> (nat list \<times> nat list) list" where
  "searchParams u = (case url_query u of None \<Rightarrow> [] | Some q \<Rightarrow> urlencoded_parser q)"

definition searchParams_get :: "url \<Rightarrow> jsstring \<Rightarrow> jsstring option" where
  "searchParams_get u name =
     (case filter (\<lambda>(n, v). n = scalar_values (map unat name)) (searchParams u) of
        (n, v) # _ \<Rightarrow> Some (to_js v)
      | [] \<Rightarrow> None)"

section \<open>The link codec\<close>

text \<open>
  The repository has two source files with the same function names. The functions of
  \<open>App.tsx\<close> keep their names; those of the second file (scheme \<open>https\<close>, scheme and
  host checked) carry the suffix \<open>_strict\<close>. In both, \<open>parseMessageFromUrl\<close> is a
  \<open>try\<close> block (\<open>_try\<close>) and a \<open>catch\<close> that returns \<open>null\<close>.
\<close>

subsection \<open>App.tsx (custom scheme, host not checked)\<close>

definition SCHEME :: jsstring where
  "SCHEME = js ''nfcmsg''"

definition HOST :: jsstring where
  "HOST = js ''read''"

definition buildDeepLink :: "jsstring \<Rightarrow> js_error + jsstring" where
  "buildDeepLink message =
     (case encodeURIComponent message of
        Inl e \<Rightarrow> Inl e
      | Inr encoded \<Rightarrow> Inr (SCHEME @ js ''://'' @ HOST @ js ''?m='' @ encoded))"

definition parseMessageFromUrl_try ::
  "host_env \<Rightarrow> jsstring option \<Rightarrow> js_error + jsstring option" where
  "parseMessageFromUrl_try he url =
     (case url of
        None \<Rightarrow> Inr None
      | Some url' \<Rightarrow>
          if url' = [] then Inr None
          else case URL_new he url' of
                 Inl e \<Rightarrow> Inl e
               | Inr u \<Rightarrow>
                   if protocol u \<noteq> SCHEME @ js '':'' then Inr None
                   else case searchParams_get u (js ''m'') of
                          None \<Rightarrow> Inr None
                        | Some raw \<Rightarrow>
                            if raw = [] then Inr None
                            else (case decodeURIComponent raw of
                                    Inl e \<Rightarrow> Inl e
                                  | Inr msg \<Rightarrow> Inr (Some msg)))"

definition parseMessageFromUrl ::
  "host_env \<Rightarrow> jsstring option \<Rightarrow> js_error + jsstring option" where
  "parseMessageFromUrl he url =
     (case parseMessageFromUrl_try he url of
        Inl err \<Rightarrow> Inr None
      | Inr r \<Rightarrow> Inr r)"

subsection \<open>The second source file (https, scheme and host checked)\<close>

definition SCHEME_strict :: jsstring where
  "SCHEME_strict = js ''https''"

definition HOST_strict :: jsstring where
  "HOST_strict = js ''nfcmsg.test''"

definition buildDeepLink_strict :: "jsstring \<Rightarrow> js_error + jsstring" where
  "buildDeepLink_strict message =
     (case encodeURIComponent message of
        Inl e \<Rightarrow> Inl e
      | Inr encoded \<Rightarrow>
          Inr (SCHEME_strict @ js ''://'' @ HOST_strict @ js ''/read?m='' @ encoded))"

definition parseMessageFromUrl_strict_try ::
  "host_env \<Rightarrow> jsstring option \<Rightarrow> js_error + jsstring option" where
  "parseMessageFromUrl_strict_try he url =
     (case url of
        None \<Rightarrow> Inr None
      | Some url' \<Rightarrow>
          if url' = [] then Inr None
          else case URL_new he url' of
                 Inl e \<Rightarrow> Inl e
               | Inr u \<Rightarrow>
                   if protocol u \<noteq> SCHEME_strict @ js '':'' \<or> hostname u \<noteq> HOST_strict
                   then Inr None
                   else case searchParams_get u (js ''m'') of
                          None \<Rightarrow> Inr None
                        | Some raw \<Rightarrow>
                            if raw = [] then Inr None
                            else (case decodeURIComponent raw of
                                    Inl e \<Rightarrow> Inl e
                                  | Inr msg \<Rightarrow> Inr (Some msg)))"

definition parseMessageFromUrl_strict ::
  "host_env \<Rightarrow> jsstring option \<Rightarrow> js_error + jsstring option" where
  "parseMessageFromUrl_strict he url =
     (case parseMessageFromUrl_strict_try he url of
        Inl err \<Rightarrow> Inr None
      | Inr r \<Rightarrow> Inr r)"

section \<open>The deep-link listener\<close>

text \<open>
  The state of the component. \<open>App.tsx\<close> has the draft and the last message read; the
  second file adds the two busy flags.
\<close>

record app_state =
  input :: jsstring
  lastRead :: "jsstring option"

record app_state_busy = app_state +
  isWriting :: bool
  isReading :: bool

definition initial_state :: app_state where
  "initial_state = \<lparr>input = js ''Hello from NFC'', lastRead = None\<rparr>"

definition initial_state_busy :: app_state_busy where
  "initial_state_busy =
     \<lparr>input = js ''Hello from NFC'', lastRead = None, isWriting = False, isReading = False\<rparr>"

text \<open>
  The callback of \<open>Linking.getInitialURL().then\<close> and the listener of the \<open>url\<close> event,
  as functions of the URL received and the state. \<open>if (msg)\<close> is the truthiness test.
\<close>

definition truthy :: "jsstring option \<Rightarrow> bool" where
  "truthy v = (case v of None \<Rightarrow> False | Some s \<Rightarrow> s \<noteq> [])"

definition getInitialURL_then ::
  "host_env \<Rightarrow> jsstring option \<Rightarrow> app_state \<Rightarrow> js_error + app_state" where
  "getInitialURL_then he url st =
     (case parseMessageFromUrl he url of
        Inl e \<Rightarrow> Inl e
      | Inr msg \<Rightarrow> Inr (if truthy msg then st\<lparr>lastRead := msg\<rparr> else st))"

definition url_listener ::
  "host_env \<Rightarrow> jsstring \<Rightarrow> app_state \<Rightarrow> js_error + app_state" where
  "url_listener he e_url st =
     (case parseMessageFromUrl he (Some e_url) of
        Inl e \<Rightarrow> Inl e
      | Inr msg \<Rightarrow>
          Inr (if truthy msg then st\<lparr>lastRead := msg\<rparr>
               else st\<lparr>lastRead := Some (js ''No message found'')\<rparr>))"

definition getInitialURL_then_strict ::
  "host_env \<Rightarrow> jsstring option \<Rightarrow> app_state_busy \<Rightarrow> js_error + app_state_busy" where
  "getInitialURL_then_strict he url st =
     (case parseMessageFromUrl_strict he url of
        Inl e \<Rightarrow> Inl e
      | Inr msg \<Rightarrow> Inr (if truthy msg then st\<lparr>lastRead := msg\<rparr> else st))"

definition url_listener_strict ::
  "host_env \<Rightarrow> jsstring \<Rightarrow> app_state_busy \<Rightarrow> js_error + app_state_busy" where
  "url_listener_strict he e_url st =
     (case parseMessageFromUrl_strict he (Some e_url) of
        Inl e \<Rightarrow> Inl e
      | Inr msg \<Rightarrow>
          Inr (if truthy msg then st\<lparr>lastRead := msg\<rparr>
               else st\<lparr>lastRead := Some (js ''No message found'')\<rparr>))"

section \<open>The tag handlers\<close>

text \<open>
  A thrown value, as the handlers look at it: \<open>err?.message\<close> and \<open>String(err)\<close>.
\<close>

datatype thrown = Thrown (message: "jsstring option") (toString: jsstring)

definition error_text :: "thrown \<Rightarrow> jsstring" where
  "error_text err = (case message err of Some m \<Rightarrow> m | None \<Rightarrow> toString err)"

text \<open>
  \<open>Ndef.uriRecord\<close> and \<open>Ndef.encodeMessage\<close> belong to the NFC library: the record
  and the encoded message stay symbolic. A record read from a tag may lack its payload,
  and the object \<open>getNdefMessage\<close> resolves to may be \<open>null\<close> or lack \<open>ndefMessage\<close>.
\<close>

datatype ndef_record = UriRecord (uri: jsstring)

datatype ndef_bytes = EncodedMessage (records: "ndef_record list")

definition Ndef_uriRecord :: "jsstring \<Rightarrow> ndef_record" where
  "Ndef_uriRecord u = UriRecord u"

definition Ndef_encodeMessage :: "ndef_record list \<Rightarrow> ndef_bytes" where
  "Ndef_encodeMessage rs = EncodedMessage rs"

datatype tag_record = TagRecord (payload: "nat list option")

datatype tag_event = TagEvent (ndefMessage: "tag_record list option")

datatype nfc_tech = Ndef

text \<open>
  Every call a handler makes on the platform and on the state setters, in the order
  made. \<open>console.log\<close> leaves no trace.
\<close>

datatype effect =
    SetIsWriting bool
  | SetIsReading bool
  | SetLastRead jsstring
  | RequestTechnology nfc_tech
  | WriteNdefMessage ndef_bytes
  | GetTag
  | GetNdefMessage
  | AlertAlert jsstring jsstring
  | CancelTechnologyRequest

text \<open>
  What the platform answers to each awaited call: \<open>Inl\<close> is a rejection, thrown at the
  \<open>await\<close>, \<open>Inr\<close> the value resolved. The promise of \<open>cancelTechnologyRequest\<close> is
  not awaited and its rejection is swallowed by \<open>.catch(() => {})\<close>.
\<close>

record nfc_platform =
  requestTechnology :: "thrown + unit"
  writeNdefMessage :: "thrown + unit"
  getTag :: "thrown + unit"
  getNdefMessage :: "thrown + tag_event option"
  text_decodePayload :: "nat list \<Rightarrow> thrown + jsstring"
  cancelTechnologyRequest :: "thrown + unit"

text \<open>
  A handler is a \<open>try\<close> block, which returns the state, the calls made and whether it
  threw, then the \<open>catch\<close> and the \<open>finally\<close> blocks. \<open>deepLink\<close> is the memoised
  \<open>buildDeepLink(input)\<close> of the render the handler belongs to.
\<close>

definition deepLink :: "'a app_state_scheme \<Rightarrow> js_error + jsstring" where
  "deepLink st = buildDeepLink (input st)"

definition deepLink_strict :: "'a app_state_scheme \<Rightarrow> js_error + jsstring" where
  "deepLink_strict st = buildDeepLink_strict (input st)"

subsection \<open>App.tsx\<close>

definition writeToTag_try :: "nfc_platform \<Rightarrow> jsstring \<Rightarrow> effect list \<times> (thrown + unit)" where
  "writeToTag_try p link =
     (let uri = link;
          bytes = Ndef_encodeMessage [Ndef_uriRecord uri]
      in case requestTechnology p of
           Inl err \<Rightarrow> ([RequestTechnology Ndef], Inl err)
         | Inr _ \<Rightarrow>
            (case writeNdefMessage p of
               Inl err \<Rightarrow> ([RequestTechnology Ndef, WriteNdefMessage bytes], Inl err)
             | Inr _ \<Rightarrow>
                ([RequestTechnology Ndef, WriteNdefMessage bytes,
                  AlertAlert (js ''Success'') (js ''Wrote tag:\<newline>'' @ uri)], Inr ())))"

definition writeToTag :: "nfc_platform \<Rightarrow> jsstring \<Rightarrow> effect list" where
  "writeToTag p link =
     (case writeToTag_try p link of
        (tr, Inl err) \<Rightarrow> tr @ [AlertAlert (js ''NFC error'') (error_text err)]
      | (tr, Inr _) \<Rightarrow> tr)
     @ [CancelTechnologyRequest]"

subsection \<open>The second source file\<close>

definition writeToTag_busy_try ::
  "nfc_platform \<Rightarrow> jsstring \<Rightarrow> app_state_busy \<Rightarrow> app_state_busy \<times> effect list \<times> (thrown + unit)"
  where
  "writeToTag_busy_try p link st =
     (let st1 = st\<lparr>isWriting := True\<rparr>;
          uri = link;
          bytes = Ndef_encodeMessage [Ndef_uriRecord uri]
      in case requestTechnology p of
           Inl err \<Rightarrow> (st1, [SetIsWriting True, RequestTechnology Ndef], Inl err)
         | Inr _ \<Rightarrow>
            (case writeNdefMessage p of
               Inl err \<Rightarrow>
                 (st1, [SetIsWriting True, RequestTechnology Ndef, WriteNdefMessage bytes],
                  Inl err)
             | Inr _ \<Rightarrow>
                 (st1, [SetIsWriting True, RequestTechnology Ndef, WriteNdefMessage bytes,
                        AlertAlert (js ''Success'') (js ''Wrote tag:\<newline>'' @ uri)],
                  Inr ())))"

definition writeToTag_busy ::
  "nfc_platform \<Rightarrow> jsstring \<Rightarrow> app_state_busy \<Rightarrow> app_state_busy \<times> effect list" where
  "writeToTag_busy p link st =
     (case writeToTag_busy_try p link st of
        (st1, tr, r) \<Rightarrow>
          (st1\<lparr>isWriting := False\<rparr>,
           (case r of
              Inl err \<Rightarrow> tr @ [AlertAlert (js ''NFC error'') (error_text err)]
            | Inr _ \<Rightarrow> tr)
           @ [SetIsWriting False, CancelTechnologyRequest]))"

text \<open>
  \<open>ndef?.ndefMessage?.length\<close> is truthy when the message is there and has a record;
  \<open>record?.payload\<close> when the first record has a payload (an array, empty or not).
\<close>

definition first_payload :: "tag_event option \<Rightarrow> nat list option" where
  "first_payload ndef =
     (case ndef of
        None \<Rightarrow> None
      | Some ev \<Rightarrow>
          (case ndefMessage ev of
             None \<Rightarrow> None
           | Some [] \<Rightarrow> None
           | Some (record # _) \<Rightarrow> payload record))"

definition readTag_try ::
  "nfc_platform \<Rightarrow> app_state_busy \<Rightarrow> app_state_busy \<times> effect list \<times> (thrown + unit)" where
  "readTag_try p st =
     (let st1 = st\<lparr>isReading := True\<rparr>
      in case requestTechnology p of
           Inl err \<Rightarrow> (st1, [SetIsReading True, RequestTechnology Ndef], Inl err)
         | Inr _ \<Rightarrow>
            (case getTag p of
               Inl err \<Rightarrow> (st1, [SetIsReading True, RequestTechnology Ndef, GetTag], Inl err)
             | Inr _ \<Rightarrow>
                (let tr = [SetIsReading True, RequestTechnology Ndef, GetTag, GetNdefMessage]
                 in case getNdefMessage p of
                      Inl err \<Rightarrow> (st1, tr, Inl err)
                    | Inr ndef \<Rightarrow>
                       (case first_payload ndef of
                          None \<Rightarrow> (st1, tr, Inr ())
                        | Some bytes \<Rightarrow>
                           (case text_decodePayload p bytes of
                              Inl err \<Rightarrow> (st1, tr, Inl err)
                            | Inr text \<Rightarrow>
                               (let v = (if text \<noteq> [] then text else js ''No message found'')
                                in (st1\<lparr>lastRead := Some v\<rparr>, tr @ [SetLastRead v],
                                    Inr ())))))))"

definition readTag ::
  "nfc_platform \<Rightarrow> app_state_busy \<Rightarrow> app_state_busy \<times> effect list" where
  "readTag p st =
     (case readTag_try p st of
        (st1, tr, r) \<Rightarrow>
          (st1\<lparr>isReading := False\<rparr>,
           (case r of
              Inl err \<Rightarrow> tr @ [AlertAlert (js ''NFC error'') (error_text err)]
            | Inr _ \<Rightarrow> tr)
           @ [SetIsReading False, CancelTechnologyRequest]))"

text \<open>The message a tag holds has no record: \<open>ndef?.ndefMessage?.length\<close> is falsy.\<close>

definition no_records :: "tag_event option \<Rightarrow> bool" where
  "no_records ndef =
     (case ndef of
        None \<Rightarrow> True
      | Some ev \<Rightarrow> (case ndefMessage ev of None \<Rightarrow> True | Some rs \<Rightarrow> rs = []))"

section \<open>Instances for closed examples\<close>

text \<open>
  A host environment for the examples: it accepts a domain of lower-case letters and dots
  as it stands and rejects every other host of a special scheme and every IPv6 literal.
  The examples only use hosts on which it agrees with the URL Standard.
\<close>

definition letter_hosts :: host_env where
  "letter_hosts =
     \<lparr>ipv6_host = (\<lambda>inp. None),
      domain_host =
        (\<lambda>inp. if inp \<noteq> [] \<and> list_all (\<lambda>c. ascii_lower_alpha c \<or> c = 0x2E) inp
                then Some inp else None)\<rparr>"

text \<open>A platform on which every call succeeds, and the tag holds no record.\<close>

definition blank_tag_platform :: nfc_platform where
  "blank_tag_platform =
     \<lparr>requestTechnology = Inr (), writeNdefMessage = Inr (), getTag = Inr (),
      getNdefMessage = Inr (Some (TagEvent (Some []))),
      text_decodePayload = (\<lambda>bytes. Inr []),
      cancelTechnologyRequest = Inr ()\<rparr>"

text \<open>
  A message with a space, reserved characters of URLs, two characters outside ASCII and a
  surrogate pair.
\<close>

definition sample_message :: jsstring where
  "sample_message = js ''a b&c=d+e/#?'' @ [0xE9, 0x20AC, 0xD83D, 0xDE00]"

section \<open>Predicates of the statements\<close>

text \<open>
  A scalar value is a code point that is no surrogate. A string has no unpaired surrogate
  when \<open>CodePoints\<close> flags none: this is what \<open>encodeURIComponent\<close> accepts.
\<close>

definition scalar_value :: "nat \<Rightarrow> bool" where
  "scalar_value c \<longleftrightarrow> c \<le> 0x10FFFF \<and> \<not> is_surrogate c"

definition no_unpaired :: "jsstring \<Rightarrow> bool" where
  "no_unpaired s = list_all (\<lambda>p. \<not> snd p) (CodePoints (map unat s))"

text \<open>What \<open>Encode\<close> writes for one code point that is not an unpaired surrogate.\<close>

definition encode_code_point :: "nat \<Rightarrow> nat list" where
  "encode_code_point cp = (if uriUnescaped cp then [cp] else utf8_percent_encode cp)"

text \<open>The characters \<open>encodeURIComponent\<close> writes: the unescaped ones and \<open>%\<close>.\<close>

definition encoded_char :: "nat \<Rightarrow> bool" where
  "encoded_char c \<longleftrightarrow> uriUnescaped c \<or> c = 0x25"

text \<open>
  The scheme of a URL string, as the scheme states of the parser read it: the letters,
  digits and \<open>+ - .\<close> before the first colon, in lower case; none when the string
  does not start with a scheme.
\<close>

definition scheme_of :: "jsstring \<Rightarrow> nat list option" where
  "scheme_of url =
     map_option fst (scheme_start_state (url_input (scalar_values (map unat url))))"

section \<open>Evaluation\<close>

text \<open>The definitions a closed example unfolds to compute on characters.\<close>

lemmas char_defs = ascii_def js_def is_lead_def is_trail_def is_surrogate_def
  UTF16SurrogatePairToCodePoint_def UTF16EncodeCodePoint_def utf8_encode_def
  ascii_digit_def ascii_upper_alpha_def ascii_lower_alpha_def ascii_alpha_def
  ascii_alphanumeric_def ascii_lowercase_def ascii_hex_digit_def hex_value_def hex_digit_def
  percent_encode_byte_def utf8_percent_encode_def hex_octet_def uriUnescaped_def

lemmas parser_defs = c0_control_set_def percent_encode_with_def
  forbidden_host_code_point_def opaque_host_parser_def host_parser_def scheme_start_state_def
  is_special_def path_state_def authority_end_def port_state_def host_state_def
  authority_state_def special_authority_slashes_state_def path_or_authority_state_def
  basic_URL_parser_def

lemmas url_defs = scalar_values_def to_js_def c0_control_or_space_def ascii_tab_or_newline_def
  url_input_def query_set_def special_query_set_def query_state_def
  windows_drive_letter_def file_host_end_def file_host_state_def file_state_def
  URL_new_def protocol_def hostname_def parser_defs

lemmas params_defs = urlencoded_string_def urlencoded_parser_def searchParams_def
  searchParams_get_def utf8_decode_without_BOM_def second_byte_range_def

section \<open>Percent-encoding and percent-decoding\<close>

lemma hex_digit_hex: "d < 16 \<Longrightarrow> ascii_hex_digit (hex_digit d)"
  by (auto simp: hex_digit_def ascii_hex_digit_def ascii_digit_def)

lemma hex_value_hex_digit: "d < 16 \<Longrightarrow> hex_value (hex_digit d) = d"
  by (auto simp: hex_digit_def hex_value_def ascii_digit_def)

lemma hex_digit_unescaped: "d < 16 \<Longrightarrow> uriUnescaped (hex_digit d)"
  by (auto simp: hex_digit_def uriUnescaped_def ascii_alphanumeric_def ascii_digit_def
      ascii_alpha_def ascii_upper_alpha_def)

lemma percent_decode_byte:
  assumes "b < 256"
  shows "percent_decode (percent_encode_byte b @ rest) = b # percent_decode rest"
proof -
  have "b div 16 < 16" using assms by simp
  moreover have "b mod 16 < 16" by simp
  ultimately show ?thesis
    by (simp add: percent_encode_byte_def hex_digit_hex hex_value_hex_digit)
qed

lemma percent_decode_other:
  assumes "c \<noteq> 0x25"
  shows "percent_decode (c # rest) = c # percent_decode rest"
proof (cases rest)
  case Nil
  then show ?thesis by simp
next
  case (Cons x xs)
  then show ?thesis using assms by (cases xs) simp_all
qed

lemma percent_decode_bytes:
  assumes "\<forall>b\<in>set bs. b < 256"
  shows "percent_decode (concat (map percent_encode_byte bs) @ rest) = bs @ percent_decode rest"
  using assms by (induction bs) (simp_all add: percent_decode_byte)

lemma utf8_encode_bytes: "c \<le> 0x10FFFF \<Longrightarrow> \<forall>b\<in>set (utf8_encode c). b < 256"
  by (auto simp: utf8_encode_def)

section \<open>UTF-8: decoding what was encoded\<close>

lemma decoder_lead2:
  "a < 0x20 \<Longrightarrow> 2 \<le> a \<Longrightarrow>
   utf8_decoder cp 0 lo hi ((0xC0 + a) # bs) = utf8_decoder a 1 0x80 0xBF bs"
  by (simp add: mod_add_eq [symmetric])

lemma decoder_lead3:
  "a < 0x10 \<Longrightarrow>
   utf8_decoder cp 0 lo hi ((0xE0 + a) # bs) =
     utf8_decoder a 2 (if a = 0 then 0xA0 else 0x80) (if a = 0xD then 0x9F else 0xBF) bs"
  by (simp add: mod_add_eq [symmetric] second_byte_range_def)

lemma decoder_lead4:
  "a \<le> 4 \<Longrightarrow>
   utf8_decoder cp 0 lo hi ((0xF0 + a) # bs) =
     utf8_decoder a 3 (if a = 0 then 0x90 else 0x80) (if a = 4 then 0x8F else 0xBF) bs"
  by (simp add: mod_add_eq [symmetric] second_byte_range_def)

lemma decoder_last:
  "b < 0x40 \<Longrightarrow> lo \<le> 0x80 + b \<Longrightarrow> 0x80 + b \<le> hi \<Longrightarrow>
   utf8_decoder cp 1 lo hi ((0x80 + b) # bs) = (cp * 0x40 + b) # utf8_decoder 0 0 0x80 0xBF bs"
  by (simp add: mod_add_eq [symmetric])

lemma decoder_more2:
  "b < 0x40 \<Longrightarrow> lo \<le> 0x80 + b \<Longrightarrow> 0x80 + b \<le> hi \<Longrightarrow>
   utf8_decoder cp 2 lo hi ((0x80 + b) # bs) = utf8_decoder (cp * 0x40 + b) 1 0x80 0xBF bs"
  by (simp add: mod_add_eq [symmetric])

lemma decoder_more3:
  "b < 0x40 \<Longrightarrow> lo \<le> 0x80 + b \<Longrightarrow> 0x80 + b \<le> hi \<Longrightarrow>
   utf8_decoder cp 3 lo hi ((0x80 + b) # bs) = utf8_decoder (cp * 0x40 + b) 2 0x80 0xBF bs"
  by (simp add: mod_add_eq [symmetric])


lemma decode2:
  assumes "2 \<le> a" "a < 0x20" "b < 0x40"
  shows "utf8_decoder 0 0 0x80 0xBF ((0xC0 + a) # (0x80 + b) # rest) =
         (a * 0x40 + b) # utf8_decoder 0 0 0x80 0xBF rest"
  using assms by (simp only: decoder_lead2 decoder_last)

lemma decode3:
  assumes "a < 0x10" "b < 0x40" "e < 0x40" "a = 0 \<Longrightarrow> 0x20 \<le> b" "a = 0xD \<Longrightarrow> b < 0x20"
  shows "utf8_decoder 0 0 0x80 0xBF ((0xE0 + a) # (0x80 + b) # (0x80 + e) # rest) =
         ((a * 0x40 + b) * 0x40 + e) # utf8_decoder 0 0 0x80 0xBF rest"
proof -
  have lo: "(if a = 0 then 0xA0 else 0x80) \<le> 0x80 + b" using assms(4) by auto
  have hi: "0x80 + b \<le> (if a = 0xD then 0x9F else 0xBF)" using assms(2,5) by auto
  have "utf8_decoder 0 0 0x80 0xBF ((0xE0 + a) # (0x80 + b) # (0x80 + e) # rest) =
        utf8_decoder a 2 (if a = 0 then 0xA0 else 0x80) (if a = 0xD then 0x9F else 0xBF)
          ((0x80 + b) # (0x80 + e) # rest)"
    using assms(1) by (rule decoder_lead3)
  also have "\<dots> = utf8_decoder (a * 0x40 + b) 1 0x80 0xBF ((0x80 + e) # rest)"
    using assms(2) lo hi by (rule decoder_more2)
  also have "\<dots> = ((a * 0x40 + b) * 0x40 + e) # utf8_decoder 0 0 0x80 0xBF rest"
    using assms(3) by (intro decoder_last) simp_all
  finally show ?thesis .
qed

lemma decode4:
  assumes "a \<le> 4" "b < 0x40" "e < 0x40" "f < 0x40" "a = 0 \<Longrightarrow> 0x10 \<le> b" "a = 4 \<Longrightarrow> b < 0x10"
  shows "utf8_decoder 0 0 0x80 0xBF ((0xF0 + a) # (0x80 + b) # (0x80 + e) # (0x80 + f) # rest) =
         (((a * 0x40 + b) * 0x40 + e) * 0x40 + f) # utf8_decoder 0 0 0x80 0xBF rest"
proof -
  have lo: "(if a = 0 then 0x90 else 0x80) \<le> 0x80 + b" using assms(5) by auto
  have hi: "0x80 + b \<le> (if a = 4 then 0x8F else 0xBF)" using assms(2,6) by auto
  have "utf8_decoder 0 0 0x80 0xBF ((0xF0 + a) # (0x80 + b) # (0x80 + e) # (0x80 + f) # rest) =
        utf8_decoder a 3 (if a = 0 then 0x90 else 0x80) (if a = 4 then 0x8F else 0xBF)
          ((0x80 + b) # (0x80 + e) # (0x80 + f) # rest)"
    using assms(1) by (rule decoder_lead4)
  also have "\<dots> = utf8_decoder (a * 0x40 + b) 2 0x80 0xBF ((0x80 + e) # (0x80 + f) # rest)"
    using assms(2) lo hi by (rule decoder_more3)
  also have "\<dots> = utf8_decoder ((a * 0x40 + b) * 0x40 + e) 1 0x80 0xBF ((0x80 + f) # rest)"
    using assms(3) by (intro decoder_more2) simp_all
  also have "\<dots> = (((a * 0x40 + b) * 0x40 + e) * 0x40 + f) # utf8_decoder 0 0 0x80 0xBF rest"
    using assms(4) by (intro decoder_last) simp_all
  finally show ?thesis .
qed

text \<open>A code point is the sum of its base-64 digits.\<close>

lemma digits64:
  fixes c :: nat
  defines "q1 \<equiv> c div 0x40" and "q2 \<equiv> c div 0x1000" and "q3 \<equiv> c div 0x40000"
  shows "c = q1 * 0x40 + c mod 0x40"
    and "q1 = q2 * 0x40 + c div 0x40 mod 0x40"
    and "q2 = q3 * 0x40 + c div 0x1000 mod 0x40"
proof -
  show "c = q1 * 0x40 + c mod 0x40" by (simp add: q1_def)
  have "c div 0x1000 = c div 0x40 div 0x40" by (simp add: div_mult2_eq [symmetric])
  then show "q1 = q2 * 0x40 + c div 0x40 mod 0x40" by (simp add: q1_def q2_def)
  have "c div 0x40000 = c div 0x1000 div 0x40" by (simp add: div_mult2_eq [symmetric])
  then show "q2 = q3 * 0x40 + c div 0x1000 mod 0x40" by (simp add: q2_def q3_def)
qed


lemma utf8_decoder_encode:
  assumes "scalar_value c"
  shows "utf8_decoder 0 0 0x80 0xBF (utf8_encode c @ rest) = c # utf8_decoder 0 0 0x80 0xBF rest"
proof -
  define f where "f = c mod 0x40"
  define e where "e = c div 0x40 mod 0x40"
  define b where "b = c div 0x1000 mod 0x40"
  define q1 where "q1 = c div 0x40"
  define q2 where "q2 = c div 0x1000"
  define q3 where "q3 = c div 0x40000"
  have lt: "f < 0x40" "e < 0x40" "b < 0x40" by (simp_all add: f_def e_def b_def)
  have c: "c = q1 * 0x40 + f" and q1: "q1 = q2 * 0x40 + e" and q2: "q2 = q3 * 0x40 + b"
    unfolding f_def e_def b_def q1_def q2_def q3_def by (rule digits64)+
  have bound: "c \<le> 0x10FFFF" and sur: "c < 0xD800 \<or> 0xDFFF < c"
    using assms by (auto simp: scalar_value_def is_surrogate_def)
  consider "c \<le> 0x7F" | "0x7F < c" "c \<le> 0x7FF" | "0x7FF < c" "c \<le> 0xFFFF" | "0xFFFF < c"
    by linarith
  then show ?thesis
  proof cases
    case 1
    then show ?thesis by (simp add: utf8_encode_def)
  next
    case 2
    have enc: "utf8_encode c @ rest = (0xC0 + q1) # (0x80 + f) # rest"
      using 2 by (simp add: utf8_encode_def q1_def f_def)
    have "2 \<le> q1" "q1 < 0x20" using 2 c lt by linarith+
    then have "utf8_decoder 0 0 0x80 0xBF ((0xC0 + q1) # (0x80 + f) # rest) =
        (q1 * 0x40 + f) # utf8_decoder 0 0 0x80 0xBF rest"
      using lt(1) by (rule decode2)
    then show ?thesis by (simp only: enc c [symmetric])
  next
    case 3
    have enc: "utf8_encode c @ rest = (0xE0 + q2) # (0x80 + e) # (0x80 + f) # rest"
      using 3 by (simp add: utf8_encode_def q2_def e_def f_def)
    have a: "q2 < 0x10" using 3 c q1 lt by linarith
    have lo: "0x20 \<le> e" if "q2 = 0" using that 3 c q1 lt by linarith
    have hi: "e < 0x20" if "q2 = 0xD" using that 3 c q1 lt sur by linarith
    have "utf8_decoder 0 0 0x80 0xBF ((0xE0 + q2) # (0x80 + e) # (0x80 + f) # rest) =
        ((q2 * 0x40 + e) * 0x40 + f) # utf8_decoder 0 0 0x80 0xBF rest"
      using a lt(2) lt(1) lo hi by (rule decode3)
    then show ?thesis by (simp only: enc q1 [symmetric] c [symmetric])
  next
    case 4
    have enc: "utf8_encode c @ rest =
        (0xF0 + q3) # (0x80 + b) # (0x80 + e) # (0x80 + f) # rest"
      using 4 by (simp add: utf8_encode_def q3_def b_def e_def f_def)
    have a: "q3 \<le> 4" using bound c q1 q2 lt by linarith
    have lo: "0x10 \<le> b" if "q3 = 0" using that 4 c q1 q2 lt by linarith
    have hi: "b < 0x10" if "q3 = 4" using that bound c q1 q2 lt by linarith
    have "utf8_decoder 0 0 0x80 0xBF
            ((0xF0 + q3) # (0x80 + b) # (0x80 + e) # (0x80 + f) # rest) =
        (((q3 * 0x40 + b) * 0x40 + e) * 0x40 + f) # utf8_decoder 0 0 0x80 0xBF rest"
      using a lt(3) lt(2) lt(1) lo hi by (rule decode4)
    then show ?thesis by (simp only: enc q2 [symmetric] q1 [symmetric] c [symmetric])
  qed
qed

section \<open>UTF-16: code points and code units\<close>

lemma pair_encode:
  assumes "is_lead u" and "is_trail v"
  shows "UTF16EncodeCodePoint (UTF16SurrogatePairToCodePoint u v) = [u, v]"
    and "scalar_value (UTF16SurrogatePairToCodePoint u v)"
proof -
  define h where "h = u - 0xD800"
  define l where "l = v - 0xDC00"
  have u: "u = 0xD800 + h" and h: "h < 0x400"
    using assms(1) unfolding is_lead_def h_def by linarith+
  have v: "v = 0xDC00 + l" and l: "l < 0x400"
    using assms(2) unfolding is_trail_def l_def by linarith+
  have p: "UTF16SurrogatePairToCodePoint u v = h * 0x400 + l + 0x10000"
    by (simp add: UTF16SurrogatePairToCodePoint_def h_def l_def)
  have d: "(h * 0x400 + l) div 0x400 = h" and m: "(h * 0x400 + l) mod 0x400 = l"
    using l by simp_all
  have "UTF16EncodeCodePoint (h * 0x400 + l + 0x10000) = [0xD800 + h, 0xDC00 + l]"
    using l by (simp add: UTF16EncodeCodePoint_def d m)
  then show "UTF16EncodeCodePoint (UTF16SurrogatePairToCodePoint u v) = [u, v]"
    by (simp only: p u [symmetric] v [symmetric])
  have "h * 0x400 + l + 0x10000 \<le> 0x10FFFF" using h l by linarith
  then show "scalar_value (UTF16SurrogatePairToCodePoint u v)"
    by (simp add: p scalar_value_def is_surrogate_def)
qed

lemma CodePoints_pair:
  "is_lead u \<Longrightarrow> is_trail v \<Longrightarrow>
   CodePoints (u # v # us) = (UTF16SurrogatePairToCodePoint u v, False) # CodePoints us"
  by simp

lemma CodePoints_single:
  "\<not> (is_lead u \<and> is_trail v) \<Longrightarrow>
   CodePoints (u # v # us) = (u, is_surrogate u) # CodePoints (v # us)"
  by (cases "is_lead u"; cases "is_trail v"; simp)

lemma CodePoints_roundtrip:
  assumes "\<forall>u\<in>set us. u \<le> 0xFFFF" and "list_all (\<lambda>p. \<not> snd p) (CodePoints us)"
  shows "concat (map (\<lambda>p. UTF16EncodeCodePoint (fst p)) (CodePoints us)) = us
         \<and> list_all (\<lambda>p. scalar_value (fst p)) (CodePoints us)"
  using assms
proof (induction us rule: CodePoints.induct)
  case 1
  then show ?case by simp
next
  case (2 u)
  then show ?case by (simp add: UTF16EncodeCodePoint_def scalar_value_def)
next
  case (3 u v us)
  show ?case
  proof (cases "is_lead u \<and> is_trail v")
    case True
    then have cp: "CodePoints (u # v # us) =
        (UTF16SurrogatePairToCodePoint u v, False) # CodePoints us"
      by (simp add: CodePoints_pair)
    have "\<forall>u\<in>set us. u \<le> 0xFFFF" using "3.prems"(1) by simp
    moreover have "list_all (\<lambda>p. \<not> snd p) (CodePoints us)"
      using "3.prems"(2) unfolding cp by simp
    ultimately have ih: "concat (map (\<lambda>p. UTF16EncodeCodePoint (fst p)) (CodePoints us)) = us
         \<and> list_all (\<lambda>p. scalar_value (fst p)) (CodePoints us)"
      using "3.IH"(1) True by blast
    show ?thesis unfolding cp using True ih by (simp add: pair_encode)
  next
    case False
    then have cp: "CodePoints (u # v # us) = (u, is_surrogate u) # CodePoints (v # us)"
      by (rule CodePoints_single)
    have "\<forall>u\<in>set (v # us). u \<le> 0xFFFF" using "3.prems"(1) by simp
    moreover have tl: "\<not> is_surrogate u \<and> list_all (\<lambda>p. \<not> snd p) (CodePoints (v # us))"
      using "3.prems"(2) unfolding cp by simp
    ultimately have ih:
      "concat (map (\<lambda>p. UTF16EncodeCodePoint (fst p)) (CodePoints (v # us))) = v # us
         \<and> list_all (\<lambda>p. scalar_value (fst p)) (CodePoints (v # us))"
      using "3.IH"(2) False by blast
    have "u \<le> 0xFFFF" using "3.prems"(1) by simp
    then have "UTF16EncodeCodePoint u = [u]" "scalar_value u"
      using tl by (simp_all add: UTF16EncodeCodePoint_def scalar_value_def)
    then show ?thesis unfolding cp using ih by simp
  qed
qed

lemma CodePoints_no_surrogate:
  assumes "\<forall>u\<in>set us. \<not> is_surrogate u"
  shows "CodePoints us = map (\<lambda>u. (u, False)) us"
  using assms
  by (induction us rule: CodePoints.induct) (auto simp: is_lead_def is_surrogate_def)

section \<open>Code units as numbers\<close>

lemma unat_of_nat_unit: "n \<le> 0xFFFF \<Longrightarrow> unat (of_nat n :: 16 word) = n"
  by (simp add: unat_of_nat)

lemma map_unat_of_nat:
  assumes "\<forall>n\<in>set ns. n \<le> 0xFFFF"
  shows "map unat (map of_nat ns :: jsstring) = ns"
  using assms by (induction ns) (simp_all add: unat_of_nat_unit)

lemma map_of_nat_unat: "map of_nat (map unat s) = (s :: jsstring)"
  by (induction s) simp_all

lemma unat_unit_le: "\<forall>u\<in>set (map unat (s :: jsstring)). u \<le> 0xFFFF"
proof
  fix u assume "u \<in> set (map unat s)"
  then obtain w :: "16 word" where "u = unat w" by auto
  moreover have "unat w < 2 ^ 16" using unsigned_less [of w, where 'a = nat] by simp
  ultimately show "u \<le> 0xFFFF" by simp
qed

section \<open>What Encode writes\<close>

lemma Encode_paired:
  assumes "list_all (\<lambda>p. \<not> snd p) l"
  shows "Encode l = Inr (concat (map (\<lambda>p. encode_code_point (fst p)) l))"
  using assms
proof (induction l)
  case Nil
  then show ?case by simp
next
  case (Cons p l)
  obtain cp unpaired where p: "p = (cp, unpaired)" by (cases p)
  with Cons show ?case by (simp add: encode_code_point_def)
qed

lemma encoded_char_facts:
  assumes "encoded_char x"
  shows "0x21 \<le> x" and "x \<le> 0x7E" and "x \<noteq> 0x23" and "x \<noteq> 0x26" and "x \<noteq> 0x2B"
    and "x \<noteq> 0x3D"
  using assms
  by (auto simp: encoded_char_def uriUnescaped_def ascii_alphanumeric_def ascii_digit_def
      ascii_alpha_def ascii_upper_alpha_def ascii_lower_alpha_def)

lemma percent_encode_byte_chars:
  assumes "b < 256"
  shows "\<forall>x\<in>set (percent_encode_byte b). encoded_char x"
proof -
  have "b div 16 < 16" using assms by simp
  moreover have "b mod 16 < 16" by simp
  ultimately show ?thesis
    by (simp add: percent_encode_byte_def encoded_char_def hex_digit_unescaped)
qed

lemma encode_code_point_chars:
  assumes "c \<le> 0x10FFFF"
  shows "\<forall>x\<in>set (encode_code_point c). encoded_char x"
  using utf8_encode_bytes [OF assms] percent_encode_byte_chars
  by (auto simp: encode_code_point_def utf8_percent_encode_def encoded_char_def)

lemma encoded_chars:
  assumes "list_all (\<lambda>p. scalar_value (fst p)) l"
  shows "\<forall>x\<in>set (concat (map (\<lambda>p. encode_code_point (fst p)) l)). encoded_char x"
  using assms encode_code_point_chars
  by (auto simp: list_all_iff scalar_value_def)

section \<open>Decode without a percent sign\<close>

lemma Decode_no_percent:
  assumes "0x25 \<notin> set us"
  shows "Decode us = Inr us"
  using assms by (induction us) simp_all


section \<open>The query of a link, decoded\<close>

lemma percent_encode_with_append:
  "percent_encode_with S (xs @ ys) = percent_encode_with S xs @ percent_encode_with S ys"
  by (simp add: percent_encode_with_def)

lemma percent_encode_with_id:
  assumes "\<forall>x\<in>set xs. \<not> S x"
  shows "percent_encode_with S xs = xs"
  using assms by (induction xs) (simp_all add: percent_encode_with_def)

lemma query_set_encoded: "encoded_char x \<Longrightarrow> \<not> query_set x"
  by (auto simp: encoded_char_def uriUnescaped_def ascii_alphanumeric_def ascii_digit_def
      ascii_alpha_def ascii_upper_alpha_def ascii_lower_alpha_def query_set_def
      c0_control_set_def)

lemma special_query_set_encoded: "encoded_char x \<Longrightarrow> special_query_set x \<longleftrightarrow> x = 0x27"
  using query_set_encoded by (auto simp: special_query_set_def)

lemma encoded_char_percent_encode_with:
  assumes "S = query_set \<or> S = special_query_set" and "\<forall>x\<in>set xs. encoded_char x"
  shows "\<forall>x\<in>set (percent_encode_with S xs). encoded_char x"
proof -
  have q: "utf8_percent_encode 0x27 = [0x25, 0x32, 0x37]"
    by (simp add: utf8_percent_encode_def utf8_encode_def percent_encode_byte_def hex_digit_def)
  have "\<forall>x\<in>set (if S x then utf8_percent_encode x else [x]). encoded_char x"
    if "encoded_char x" for x
    using that assms(1) q
    by (auto simp: query_set_encoded special_query_set_encoded encoded_char_def
        uriUnescaped_def ascii_alphanumeric_def ascii_digit_def)
  then show ?thesis using assms(2) by (auto simp: percent_encode_with_def)
qed

lemma percent_encode_byte_no_quote:
  assumes "b < 256"
  shows "\<forall>x\<in>set (percent_encode_byte b). encoded_char x \<and> x \<noteq> 0x27"
proof -
  have "hex_digit d \<noteq> 0x27" for d by (simp add: hex_digit_def)
  then show ?thesis
    using percent_encode_byte_chars [OF assms] by (auto simp: percent_encode_byte_def)
qed

lemma percent_decode_code_point:
  assumes "S = query_set \<or> S = special_query_set" and "c \<le> 0x10FFFF"
  shows "percent_decode (percent_encode_with S (encode_code_point c) @ rest) =
         utf8_encode c @ percent_decode rest"
proof (cases "uriUnescaped c")
  case True
  then have e: "encode_code_point c = [c]" by (simp add: encode_code_point_def)
  have c: "encoded_char c" "c \<noteq> 0x25" "c \<le> 0x7F"
    using True
    by (auto simp: encoded_char_def uriUnescaped_def ascii_alphanumeric_def ascii_digit_def
      ascii_alpha_def ascii_upper_alpha_def ascii_lower_alpha_def)
  have u: "utf8_encode c = [c]" using c(3) by (simp add: utf8_encode_def)
  show ?thesis
  proof (cases "S c")
    case True
    then have "percent_encode_with S [c] = percent_encode_byte c"
      by (simp add: percent_encode_with_def utf8_percent_encode_def u)
    moreover have "c < 256" using c(3) by simp
    ultimately show ?thesis by (simp add: e u percent_decode_byte)
  next
    case False
    then have "percent_encode_with S [c] = [c]" by (simp add: percent_encode_with_def)
    then show ?thesis using c(2) by (simp add: e u percent_decode_other)
  qed
next
  case False
  then have e: "encode_code_point c = concat (map percent_encode_byte (utf8_encode c))"
    by (simp add: encode_code_point_def utf8_percent_encode_def)
  have b: "\<forall>b\<in>set (utf8_encode c). b < 256" using assms(2) by (rule utf8_encode_bytes)
  have "\<forall>x\<in>set (encode_code_point c). encoded_char x \<and> x \<noteq> 0x27"
    unfolding e using b percent_encode_byte_no_quote by auto
  then have "\<forall>x\<in>set (encode_code_point c). \<not> S x"
    using assms(1) query_set_encoded special_query_set_encoded by auto
  then have "percent_encode_with S (encode_code_point c) = encode_code_point c"
    by (rule percent_encode_with_id)
  then show ?thesis unfolding e using b by (simp add: percent_decode_bytes)
qed

lemma percent_decode_encoded:
  assumes "S = query_set \<or> S = special_query_set"
    and "list_all (\<lambda>p. scalar_value (fst p)) l"
  shows "percent_decode (percent_encode_with S (concat (map (\<lambda>p. encode_code_point (fst p)) l))) =
         concat (map (\<lambda>p. utf8_encode (fst p)) l)"
  using assms(2)
proof (induction l)
  case Nil
  then show ?case by (simp add: percent_encode_with_def)
next
  case (Cons p l)
  then have "fst p \<le> 0x10FFFF" by (simp add: scalar_value_def)
  then show ?case
    using Cons percent_decode_code_point [OF assms(1)]
    by (simp add: percent_encode_with_append)
qed

lemma utf8_decode_encoded:
  assumes "list_all (\<lambda>p. scalar_value (fst p)) l"
  shows "utf8_decode_without_BOM (concat (map (\<lambda>p. utf8_encode (fst p)) l)) = map fst l"
  using assms unfolding utf8_decode_without_BOM_def
  by (induction l) (simp_all add: utf8_decoder_encode)

section \<open>Parsing a link that was built\<close>

lemma scalar_values_ascii:
  assumes "\<forall>x\<in>set xs. x \<le> 0x7F"
  shows "scalar_values xs = xs"
proof -
  have "\<forall>x\<in>set xs. \<not> is_surrogate x" using assms by (auto simp: is_surrogate_def)
  then have "CodePoints xs = map (\<lambda>u. (u, False)) xs" by (rule CodePoints_no_surrogate)
  then show ?thesis by (simp add: scalar_values_def comp_def)
qed

lemma url_input_id:
  assumes "xs \<noteq> []" and "\<not> c0_control_or_space (hd xs)" and "\<not> c0_control_or_space (last xs)"
    and "\<forall>x\<in>set xs. \<not> ascii_tab_or_newline x"
  shows "url_input xs = xs"
proof -
  have 1: "dropWhile c0_control_or_space xs = xs"
    using assms(1,2) by (cases xs) simp_all
  have 2: "dropWhile c0_control_or_space (rev xs) = rev xs"
    using assms(1,3) by (simp add: dropWhile_eq_self_iff hd_rev)
  show ?thesis using assms(4) by (simp add: url_input_def 1 2)
qed

lemma link_input:
  assumes "pre \<noteq> []" and "\<forall>x\<in>set pre. 0x21 \<le> x \<and> x \<le> 0x7E"
    and "\<forall>x\<in>set E. encoded_char x"
  shows "url_input (scalar_values (map unat (map of_nat (pre @ E) :: jsstring))) = pre @ E"
proof -
  have r: "\<forall>x\<in>set (pre @ E). 0x21 \<le> x \<and> x \<le> 0x7E"
    using assms(2,3) encoded_char_facts(1,2) by auto
  have "\<forall>n\<in>set (pre @ E). n \<le> 0xFFFF"
  proof
    fix n assume "n \<in> set (pre @ E)"
    with r have "n \<le> 0x7E" by blast
    then show "n \<le> 0xFFFF" by simp
  qed
  then have 1: "map unat (map of_nat (pre @ E) :: jsstring) = pre @ E"
    by (rule map_unat_of_nat)
  have "\<forall>n\<in>set (pre @ E). n \<le> 0x7F"
  proof
    fix n assume "n \<in> set (pre @ E)"
    with r have "n \<le> 0x7E" by blast
    then show "n \<le> 0x7F" by simp
  qed
  then have 2: "scalar_values (pre @ E) = pre @ E"
    by (rule scalar_values_ascii)
  have ne: "pre @ E \<noteq> []" using assms(1) by simp
  then have "hd (pre @ E) \<in> set (pre @ E)" "last (pre @ E) \<in> set (pre @ E)"
    using hd_in_set last_in_set by blast+
  then have "0x21 \<le> hd (pre @ E)" "0x21 \<le> last (pre @ E)"
    using r by blast+
  then have "\<not> c0_control_or_space (hd (pre @ E))" "\<not> c0_control_or_space (last (pre @ E))"
    by (simp_all add: c0_control_or_space_def)
  moreover have "\<forall>x\<in>set (pre @ E). \<not> ascii_tab_or_newline x"
  proof
    fix x assume "x \<in> set (pre @ E)"
    with r have "0x21 \<le> x" by blast
    then show "\<not> ascii_tab_or_newline x" by (auto simp: ascii_tab_or_newline_def)
  qed
  ultimately have "url_input (pre @ E) = pre @ E" using ne by (intro url_input_id)
  then show ?thesis by (simp only: 1 2)
qed


lemma query_state_link:
  assumes "\<forall>x\<in>set E. encoded_char x"
  shows "query_state False (ascii ''m='' @ E) = ascii ''m='' @ E"
    and "query_state True (ascii ''m='' @ E) = ascii ''m='' @ percent_encode_with special_query_set E"
proof -
  have "\<forall>x\<in>set E. x \<noteq> 0x23" using assms encoded_char_facts(3) by blast
  then have t: "takeWhile (\<lambda>c. c \<noteq> 0x23) (ascii ''m='' @ E) = ascii ''m='' @ E"
    by (simp add: ascii_def)
  have "\<forall>x\<in>set E. \<not> query_set x" using assms query_set_encoded by blast
  then have q: "percent_encode_with query_set E = E" by (rule percent_encode_with_id)
  have m: "percent_encode_with query_set (ascii ''m='') = ascii ''m=''"
    "percent_encode_with special_query_set (ascii ''m='') = ascii ''m=''"
    by (simp_all add: percent_encode_with_def ascii_def special_query_set_def query_set_def
        c0_control_set_def)
  show "query_state False (ascii ''m='' @ E) = ascii ''m='' @ E"
    by (simp add: query_state_def t percent_encode_with_append q m)
  show "query_state True (ascii ''m='' @ E) = ascii ''m='' @ percent_encode_with special_query_set E"
    by (simp add: query_state_def t percent_encode_with_append m)
qed

lemma URL_new_link:
  assumes "\<forall>x\<in>set E. encoded_char x"
  shows "URL_new he (js ''nfcmsg://read?m='' @ map of_nat E) =
         Inr \<lparr>url_scheme = ascii ''nfcmsg'', url_host = Some (ascii ''read''),
              url_query = Some (ascii ''m='' @ E)\<rparr>"
proof -
  have j: "js ''nfcmsg://read?m='' @ map of_nat E = map of_nat (ascii ''nfcmsg://read?m='' @ E)"
    by (simp add: js_def)
  have "\<forall>x\<in>set (ascii ''nfcmsg://read?m=''). 0x21 \<le> x \<and> x \<le> 0x7E"
    by (simp add: ascii_def)
  then have i: "url_input (scalar_values (map unat
      (map of_nat (ascii ''nfcmsg://read?m='' @ E) :: jsstring))) = ascii ''nfcmsg://read?m='' @ E"
    using assms by (intro link_input) (simp_all add: ascii_def)
  have q: "query_state False (109 # 61 # E) = 109 # 61 # E"
    using query_state_link(1) [OF assms] by (simp add: ascii_def)
  have "basic_URL_parser he (scalar_values (map unat
      (map of_nat (ascii ''nfcmsg://read?m='' @ E) :: jsstring))) =
      Some \<lparr>url_scheme = ascii ''nfcmsg'', url_host = Some (ascii ''read''),
              url_query = Some (ascii ''m='' @ E)\<rparr>"
    unfolding basic_URL_parser_def i
    by (simp add: parser_defs char_defs Let_def q)
  then show ?thesis by (simp add: URL_new_def j)
qed


lemma URL_new_link_strict:
  assumes "\<forall>x\<in>set E. encoded_char x"
  shows "URL_new he (js ''https://nfcmsg.test/read?m='' @ map of_nat E) =
         (case domain_host he (ascii ''nfcmsg.test'') of
            None \<Rightarrow> Inl TypeError
          | Some h \<Rightarrow>
              Inr \<lparr>url_scheme = ascii ''https'', url_host = Some h,
                   url_query = Some (ascii ''m='' @ percent_encode_with special_query_set E)\<rparr>)"
proof -
  have j: "js ''https://nfcmsg.test/read?m='' @ map of_nat E =
      map of_nat (ascii ''https://nfcmsg.test/read?m='' @ E)"
    by (simp add: js_def)
  have "\<forall>x\<in>set (ascii ''https://nfcmsg.test/read?m=''). 0x21 \<le> x \<and> x \<le> 0x7E"
    by (simp add: ascii_def)
  then have i: "url_input (scalar_values (map unat
      (map of_nat (ascii ''https://nfcmsg.test/read?m='' @ E) :: jsstring))) =
      ascii ''https://nfcmsg.test/read?m='' @ E"
    using assms(1) by (intro link_input) (simp_all add: ascii_def)
  have q: "query_state True (109 # 61 # E) = 109 # 61 # percent_encode_with special_query_set E"
    using query_state_link(2) [OF assms(1)] by (simp add: ascii_def)
  have "basic_URL_parser he (scalar_values (map unat
      (map of_nat (ascii ''https://nfcmsg.test/read?m='' @ E) :: jsstring))) =
      (case domain_host he (ascii ''nfcmsg.test'') of
         None \<Rightarrow> None
       | Some h \<Rightarrow>
           Some \<lparr>url_scheme = ascii ''https'', url_host = Some h,
                 url_query = Some (ascii ''m='' @ percent_encode_with special_query_set E)\<rparr>)"
    unfolding basic_URL_parser_def i
    by (simp add: scheme_start_state_def is_special_def special_authority_slashes_state_def
        authority_state_def authority_end_def host_state_def host_parser_def path_state_def
        char_defs Let_def q split: option.splits)
  then show ?thesis by (simp add: URL_new_def j split: option.splits)
qed

section \<open>Reading the parameter of a link\<close>

lemma split_on_absent:
  assumes "d \<notin> set bs"
  shows "split_on d bs = [bs]"
  using assms by (induction bs) simp_all

lemma searchParams_get_m:
  assumes "\<forall>x\<in>set Q. encoded_char x"
  shows "searchParams_get \<lparr>url_scheme = sch, url_host = h, url_query = Some (ascii ''m='' @ Q)\<rparr>
           (js ''m'') = Some (to_js (utf8_decode_without_BOM (percent_decode Q)))"
proof -
  have "0x26 \<notin> set Q" using assms encoded_char_facts(4) by blast
  then have "0x26 \<notin> set (ascii ''m='' @ Q)" by (simp add: ascii_def)
  then have s: "split_on 0x26 (ascii ''m='' @ Q) = [ascii ''m='' @ Q]"
    by (rule split_on_absent)
  have "\<forall>x\<in>set Q. x \<noteq> 0x2B" using assms encoded_char_facts(5) by blast
  then have p: "map (\<lambda>b. if b = 0x2B then 0x20 else b) Q = Q"
    by (induction Q) simp_all
  have v: "urlencoded_string Q = utf8_decode_without_BOM (percent_decode Q)"
    by (simp add: urlencoded_string_def p)
  have n: "urlencoded_string [0x6D] = [0x6D]"
    by (simp add: urlencoded_string_def utf8_decode_without_BOM_def)
  have "urlencoded_parser (ascii ''m='' @ Q) =
      [([0x6D], utf8_decode_without_BOM (percent_decode Q))]"
    unfolding urlencoded_parser_def s by (simp add: ascii_def n v)
  then show ?thesis
    by (simp add: searchParams_get_def searchParams_def)
      (simp add: js_def ascii_def scalar_values_def is_surrogate_def)
qed


section \<open>The round trip\<close>

lemma encodeURIComponent_paired:
  assumes "no_unpaired s"
  defines "E \<equiv> concat (map (\<lambda>p. encode_code_point (fst p)) (CodePoints (map unat s)))"
  shows "encodeURIComponent s = Inr (map of_nat E)"
    and "\<forall>x\<in>set E. encoded_char x"
    and "S = query_set \<or> S = special_query_set \<Longrightarrow>
         to_js (utf8_decode_without_BOM (percent_decode (percent_encode_with S E))) = s"
proof -
  let ?l = "CodePoints (map unat s)"
  have np: "list_all (\<lambda>p. \<not> snd p) ?l" using assms(1) by (simp add: no_unpaired_def)
  have rt: "concat (map (\<lambda>p. UTF16EncodeCodePoint (fst p)) ?l) = map unat s"
    and sc: "list_all (\<lambda>p. scalar_value (fst p)) ?l"
    using CodePoints_roundtrip [OF unat_unit_le np] by simp_all
  show "encodeURIComponent s = Inr (map of_nat E)"
    by (simp add: encodeURIComponent_def Encode_paired [OF np] E_def)
  show "\<forall>x\<in>set E. encoded_char x"
    unfolding E_def using sc by (rule encoded_chars)
  show "to_js (utf8_decode_without_BOM (percent_decode (percent_encode_with S E))) = s"
    if "S = query_set \<or> S = special_query_set"
  proof -
    have "utf8_decode_without_BOM (percent_decode (percent_encode_with S E)) = map fst ?l"
      unfolding E_def by (simp only: percent_decode_encoded [OF that sc] utf8_decode_encoded [OF sc])
    then show ?thesis
      by (simp add: to_js_def comp_def rt map_of_nat_unat)
  qed
qed

lemma decodeURIComponent_no_percent:
  assumes "0x25 \<notin> set s"
  shows "decodeURIComponent s = Inr s"
proof -
  have "0x25 \<notin> set (map unat s)"
  proof
    assume "0x25 \<in> set (map unat s)"
    then obtain w where w: "w \<in> set s" "unat w = 0x25" by auto
    then have "of_nat (unat w) = (0x25 :: 16 word)" by simp
    then have "w = 0x25" by simp
    with w(1) assms show False by simp
  qed
  then have "Decode (map unat s) = Inr (map unat s)" by (rule Decode_no_percent)
  then show ?thesis by (simp add: decodeURIComponent_def map_of_nat_unat del: map_map)
qed

lemma round_trip_custom:
  assumes "s \<noteq> []" and "no_unpaired s" and "0x25 \<notin> set s"
  shows "\<exists>link. buildDeepLink s = Inr link \<and> parseMessageFromUrl he (Some link) = Inr (Some s)"
proof -
  define E where "E = concat (map (\<lambda>p. encode_code_point (fst p)) (CodePoints (map unat s)))"
  define link where "link = js ''nfcmsg://read?m='' @ map of_nat E"
  have enc: "encodeURIComponent s = Inr (map of_nat E)"
    and ch: "\<forall>x\<in>set E. encoded_char x"
    and v: "to_js (utf8_decode_without_BOM (percent_decode (percent_encode_with query_set E))) = s"
    unfolding E_def using encodeURIComponent_paired [OF assms(2)] by simp_all
  have "percent_encode_with query_set E = E"
    using ch query_set_encoded by (intro percent_encode_with_id) blast
  then have v': "to_js (utf8_decode_without_BOM (percent_decode E)) = s" using v by simp
  have b: "buildDeepLink s = Inr link"
    by (simp add: buildDeepLink_def enc link_def SCHEME_def HOST_def js_def ascii_def)
  have ne: "link \<noteq> []" by (simp add: link_def js_def ascii_def)
  define u where "u = \<lparr>url_scheme = ascii ''nfcmsg'', url_host = Some (ascii ''read''),
              url_query = Some (ascii ''m='' @ E)\<rparr>"
  have p: "URL_new he link = Inr u" unfolding link_def u_def using ch by (rule URL_new_link)
  have pr: "protocol u = SCHEME @ js '':''"
    by (simp add: protocol_def u_def to_js_def SCHEME_def char_defs)
  have g: "searchParams_get u (js ''m'') = Some s"
    unfolding u_def using searchParams_get_m [OF ch] v' by simp
  have d: "decodeURIComponent s = Inr s" using assms(3) by (rule decodeURIComponent_no_percent)
  have "parseMessageFromUrl he (Some link) = Inr (Some s)"
    by (simp add: parseMessageFromUrl_def parseMessageFromUrl_try_def ne p pr g d assms(1))
  with b show ?thesis by blast
qed

lemma round_trip_strict:
  assumes "s \<noteq> []" and "no_unpaired s" and "0x25 \<notin> set s"
    and "domain_host he (ascii ''nfcmsg.test'') = Some (ascii ''nfcmsg.test'')"
  shows "\<exists>link. buildDeepLink_strict s = Inr link
           \<and> parseMessageFromUrl_strict he (Some link) = Inr (Some s)"
proof -
  define E where "E = concat (map (\<lambda>p. encode_code_point (fst p)) (CodePoints (map unat s)))"
  define Q where "Q = percent_encode_with special_query_set E"
  define link where "link = js ''https://nfcmsg.test/read?m='' @ map of_nat E"
  have enc: "encodeURIComponent s = Inr (map of_nat E)"
    and ch: "\<forall>x\<in>set E. encoded_char x"
    and v: "to_js (utf8_decode_without_BOM (percent_decode Q)) = s"
    unfolding E_def Q_def using encodeURIComponent_paired [OF assms(2)] by simp_all
  have chq: "\<forall>x\<in>set Q. encoded_char x"
    unfolding Q_def using ch by (intro encoded_char_percent_encode_with) simp_all
  have b: "buildDeepLink_strict s = Inr link"
    by (simp add: buildDeepLink_strict_def enc link_def SCHEME_strict_def HOST_strict_def js_def
        ascii_def)
  have ne: "link \<noteq> []" by (simp add: link_def js_def ascii_def)
  define u where "u = \<lparr>url_scheme = ascii ''https'', url_host = Some (ascii ''nfcmsg.test''),
              url_query = Some (ascii ''m='' @ Q)\<rparr>"
  have p: "URL_new he link = Inr u"
    unfolding link_def u_def Q_def using URL_new_link_strict [OF ch, of he] assms(4) by simp
  have pr: "protocol u = SCHEME_strict @ js '':''"
    by (simp add: protocol_def u_def to_js_def SCHEME_strict_def char_defs)
  have hn: "hostname u = HOST_strict"
    by (simp add: hostname_def u_def to_js_def HOST_strict_def char_defs)
  have g: "searchParams_get u (js ''m'') = Some s"
    unfolding u_def using searchParams_get_m [OF chq] v by simp
  have d: "decodeURIComponent s = Inr s" using assms(3) by (rule decodeURIComponent_no_percent)
  have "parseMessageFromUrl_strict he (Some link) = Inr (Some s)"
    by (simp add: parseMessageFromUrl_strict_def parseMessageFromUrl_strict_try_def ne p pr hn g d
        assms(1))
  with b show ?thesis by blast
qed

section \<open>What parseMessageFromUrl returns\<close>

lemma Decode_nonempty:
  assumes "Decode us = Inr r" and "us \<noteq> []"
  shows "r \<noteq> []"
proof -
  obtain C rest where us: "us = C # rest" using assms(2) by (cases us) auto
  have "UTF16EncodeCodePoint V \<noteq> []" for V by (simp add: UTF16EncodeCodePoint_def)
  then show ?thesis
    using assms(1) unfolding us
    by (auto split: if_splits sum.splits option.splits)
qed

lemma decodeURIComponent_nonempty:
  assumes "decodeURIComponent s = Inr r" and "s \<noteq> []"
  shows "r \<noteq> []"
  using assms Decode_nonempty [of "map unat s"]
  by (auto simp: decodeURIComponent_def split: sum.splits)

lemma parse_try_nonempty:
  "parseMessageFromUrl_try he url \<noteq> Inr (Some [])"
  "parseMessageFromUrl_strict_try he url \<noteq> Inr (Some [])"
  using decodeURIComponent_nonempty
  by (auto simp: parseMessageFromUrl_try_def parseMessageFromUrl_strict_try_def
      split: option.splits sum.splits if_splits)

lemma parse_nonempty:
  "parseMessageFromUrl he url \<noteq> Inr (Some [])"
  "parseMessageFromUrl_strict he url \<noteq> Inr (Some [])"
  using parse_try_nonempty [of he url]
  by (auto simp: parseMessageFromUrl_def parseMessageFromUrl_strict_def split: sum.splits)

lemma parse_total:
  "\<exists>r. parseMessageFromUrl he url = Inr r"
  "\<exists>r. parseMessageFromUrl_strict he url = Inr r"
  by (auto simp: parseMessageFromUrl_def parseMessageFromUrl_strict_def split: sum.splits)

lemma parse_empty_custom:
  "buildDeepLink [] = Inr (js ''nfcmsg://read?m='')"
  "parseMessageFromUrl he (Some (js ''nfcmsg://read?m='')) = Inr None"
proof -
  show "buildDeepLink [] = Inr (js ''nfcmsg://read?m='')"
    by (simp add: buildDeepLink_def encodeURIComponent_def SCHEME_def HOST_def js_def ascii_def)
  have u: "URL_new he (js ''nfcmsg://read?m='') =
      Inr \<lparr>url_scheme = ascii ''nfcmsg'', url_host = Some (ascii ''read''),
           url_query = Some (ascii ''m='')\<rparr>"
    using URL_new_link [of "[]" he] by simp
  have g: "searchParams_get \<lparr>url_scheme = ascii ''nfcmsg'', url_host = Some (ascii ''read''),
           url_query = Some (ascii ''m='')\<rparr> (js ''m'') = Some []"
    using searchParams_get_m [of "[]"] by (simp add: to_js_def utf8_decode_without_BOM_def)
  show "parseMessageFromUrl he (Some (js ''nfcmsg://read?m='')) = Inr None"
    by (simp add: parseMessageFromUrl_def parseMessageFromUrl_try_def u g)
qed

lemma parse_empty_strict:
  "buildDeepLink_strict [] = Inr (js ''https://nfcmsg.test/read?m='')"
  "parseMessageFromUrl_strict he (Some (js ''https://nfcmsg.test/read?m='')) = Inr None"
proof -
  show "buildDeepLink_strict [] = Inr (js ''https://nfcmsg.test/read?m='')"
    by (simp add: buildDeepLink_strict_def encodeURIComponent_def SCHEME_strict_def
        HOST_strict_def js_def ascii_def)
  have u: "URL_new he (js ''https://nfcmsg.test/read?m='') =
      (case domain_host he (ascii ''nfcmsg.test'') of
         None \<Rightarrow> Inl TypeError
       | Some h \<Rightarrow>
           Inr \<lparr>url_scheme = ascii ''https'', url_host = Some h,
                url_query = Some (ascii ''m='')\<rparr>)"
    using URL_new_link_strict [of "[]" he]
    by (simp add: percent_encode_with_def split: option.splits)
  have g: "searchParams_get \<lparr>url_scheme = ascii ''https'', url_host = Some h,
           url_query = Some (ascii ''m='')\<rparr> (js ''m'') = Some []" for h
    using searchParams_get_m [of "[]"] by (simp add: to_js_def utf8_decode_without_BOM_def)
  show "parseMessageFromUrl_strict he (Some (js ''https://nfcmsg.test/read?m='')) = Inr None"
    by (simp add: parseMessageFromUrl_strict_def parseMessageFromUrl_strict_try_def u g
        split: option.splits)
qed

lemma parse_null:
  "parseMessageFromUrl he None = Inr None"
  "parseMessageFromUrl he (Some []) = Inr None"
  "parseMessageFromUrl_strict he None = Inr None"
  "parseMessageFromUrl_strict he (Some []) = Inr None"
  by (simp_all add: parseMessageFromUrl_def parseMessageFromUrl_try_def
      parseMessageFromUrl_strict_def parseMessageFromUrl_strict_try_def)

lemma parse_malformed:
  assumes "URL_new he s = Inl e"
  shows "parseMessageFromUrl he (Some s) = Inr None"
    and "parseMessageFromUrl_strict he (Some s) = Inr None"
  using assms
  by (simp_all add: parseMessageFromUrl_def parseMessageFromUrl_try_def
      parseMessageFromUrl_strict_def parseMessageFromUrl_strict_try_def)

lemma parse_other_scheme:
  assumes "URL_new he s = Inr u" and "protocol u \<noteq> SCHEME @ js '':''"
  shows "parseMessageFromUrl he (Some s) = Inr None"
  using assms by (simp add: parseMessageFromUrl_def parseMessageFromUrl_try_def)

lemma parse_strict_other_scheme:
  assumes "URL_new he s = Inr u" and "protocol u \<noteq> SCHEME_strict @ js '':''"
  shows "parseMessageFromUrl_strict he (Some s) = Inr None"
  using assms by (simp add: parseMessageFromUrl_strict_def parseMessageFromUrl_strict_try_def)

lemma parse_strict_other_host:
  assumes "URL_new he s = Inr u" and "hostname u \<noteq> HOST_strict"
  shows "parseMessageFromUrl_strict he (Some s) = Inr None"
  using assms by (simp add: parseMessageFromUrl_strict_def parseMessageFromUrl_strict_try_def)

lemma parse_no_parameter:
  assumes "URL_new he s = Inr u"
    and "searchParams_get u (js ''m'') = None \<or> searchParams_get u (js ''m'') = Some []"
  shows "parseMessageFromUrl he (Some s) = Inr None"
    and "parseMessageFromUrl_strict he (Some s) = Inr None"
  using assms
  by (auto simp: parseMessageFromUrl_def parseMessageFromUrl_try_def
      parseMessageFromUrl_strict_def parseMessageFromUrl_strict_try_def)

text \<open>URLs for the closed examples.\<close>

lemma URL_new_example_com:
  "URL_new letter_hosts (js ''https://example.com/read?m=x'') =
     Inr \<lparr>url_scheme = ascii ''https'', url_host = Some (ascii ''example.com''),
          url_query = Some (ascii ''m=x'')\<rparr>"
  by (simp add: url_defs char_defs Let_def letter_hosts_def)

lemma URL_new_not_a_url: "URL_new he (js ''not a url'') = Inl TypeError"
  by (simp add: url_defs char_defs Let_def)

lemma URL_new_no_query:
  "URL_new he (js ''nfcmsg://read/path'') =
     Inr \<lparr>url_scheme = ascii ''nfcmsg'', url_host = Some (ascii ''read''), url_query = None\<rparr>"
  "URL_new letter_hosts (js ''https://nfcmsg.test/path'') =
     Inr \<lparr>url_scheme = ascii ''https'', url_host = Some (ascii ''nfcmsg.test''),
          url_query = None\<rparr>"
  by (simp_all add: url_defs char_defs Let_def letter_hosts_def)

lemma protocol_https:
  "protocol \<lparr>url_scheme = ascii ''https'', url_host = h, url_query = q\<rparr> =
     SCHEME_strict @ js '':''"
  "protocol \<lparr>url_scheme = ascii ''https'', url_host = h, url_query = q\<rparr> \<noteq> SCHEME @ js '':''"
  by (simp_all add: protocol_def to_js_def SCHEME_strict_def SCHEME_def char_defs)

lemma protocol_nfcmsg:
  "protocol \<lparr>url_scheme = ascii ''nfcmsg'', url_host = h, url_query = q\<rparr> = SCHEME @ js '':''"
  "protocol \<lparr>url_scheme = ascii ''nfcmsg'', url_host = h, url_query = q\<rparr> \<noteq>
     SCHEME_strict @ js '':''"
  by (simp_all add: protocol_def to_js_def SCHEME_def SCHEME_strict_def char_defs)

lemma hostname_examples:
  "hostname \<lparr>url_scheme = sch, url_host = Some (ascii ''example.com''), url_query = q\<rparr> \<noteq>
     HOST_strict"
  "hostname \<lparr>url_scheme = sch, url_host = Some (ascii ''nfcmsg.test''), url_query = q\<rparr> =
     HOST_strict"
  by (simp_all add: hostname_def to_js_def HOST_strict_def char_defs)

lemma searchParams_get_none:
  "searchParams_get \<lparr>url_scheme = sch, url_host = h, url_query = None\<rparr> name = None"
  by (simp add: searchParams_get_def searchParams_def)

section \<open>The scheme of a URL\<close>

lemma scheme_state_ascii:
  assumes "scheme_state buffer inp = Some (sch, rest)" and "\<forall>c\<in>set buffer. c \<le> 0x7F"
  shows "\<forall>c\<in>set sch. c \<le> 0x7F"
  using assms
proof (induction inp arbitrary: buffer)
  case Nil
  then show ?case by simp
next
  case (Cons c inp)
  show ?case
  proof (cases "ascii_alphanumeric c \<or> c = 0x2B \<or> c = 0x2D \<or> c = 0x2E")
    case True
    then have "ascii_lowercase c \<le> 0x7F"
      by (auto simp: ascii_lowercase_def ascii_alphanumeric_def ascii_digit_def ascii_alpha_def
          ascii_upper_alpha_def ascii_lower_alpha_def)
    then have "\<forall>x\<in>set (buffer @ [ascii_lowercase c]). x \<le> 0x7F"
      using Cons.prems(2) by simp
    moreover have "scheme_state (buffer @ [ascii_lowercase c]) inp = Some (sch, rest)"
      using Cons.prems(1) True by simp
    ultimately show ?thesis by (rule Cons.IH [rotated])
  next
    case False
    then show ?thesis using Cons.prems by (auto split: if_splits)
  qed
qed

lemma scheme_start_state_ascii:
  assumes "scheme_start_state inp = Some (sch, rest)"
  shows "\<forall>c\<in>set sch. c \<le> 0x7F"
proof -
  obtain c cs where inp: "inp = c # cs" and a: "ascii_alpha c"
    and s: "scheme_state [ascii_lowercase c] cs = Some (sch, rest)"
    using assms by (auto simp: scheme_start_state_def split: list.splits if_splits)
  have "ascii_lowercase c \<le> 0x7F"
    using a by (auto simp: ascii_lowercase_def ascii_alpha_def ascii_upper_alpha_def
        ascii_lower_alpha_def)
  then have "\<forall>x\<in>set [ascii_lowercase c]. x \<le> 0x7F" by simp
  with s show ?thesis by (rule scheme_state_ascii)
qed

lemma authority_state_scheme:
  "authority_state he sch rest = Some u \<Longrightarrow> url_scheme u = sch"
  by (auto simp: authority_state_def Let_def split: if_splits option.splits)

lemma file_state_scheme: "file_state he rest = Some u \<Longrightarrow> url_scheme u = ascii ''file''"
  by (auto simp: file_state_def file_host_state_def Let_def split: if_splits option.splits)

lemma basic_URL_parser_scheme:
  assumes "basic_URL_parser he inp = Some u"
  shows "\<exists>rest. scheme_start_state (url_input inp) = Some (url_scheme u, rest)"
proof -
  obtain sch rest where s: "scheme_start_state (url_input inp) = Some (sch, rest)"
    using assms by (auto simp: basic_URL_parser_def split: option.splits)
  have "url_scheme u = sch"
    using assms s authority_state_scheme file_state_scheme
    by (auto simp: basic_URL_parser_def special_authority_slashes_state_def
        path_or_authority_state_def split: if_splits list.splits)
  with s show ?thesis by simp
qed

lemma to_js_ascii:
  assumes "\<forall>c\<in>set xs. c \<le> 0x7F"
  shows "to_js xs = map of_nat xs"
  using assms by (induction xs) (simp_all add: to_js_def UTF16EncodeCodePoint_def)

lemma map_of_nat_eq:
  assumes "(map of_nat xs :: jsstring) = map of_nat ys"
    and "\<forall>c\<in>set xs. c \<le> 0xFFFF" and "\<forall>c\<in>set ys. c \<le> 0xFFFF"
  shows "xs = ys"
proof -
  have "map unat (map of_nat xs :: jsstring) = map unat (map of_nat ys :: jsstring)"
    using assms(1) by simp
  then show ?thesis by (simp only: map_unat_of_nat [OF assms(2)] map_unat_of_nat [OF assms(3)])
qed

lemma protocol_scheme:
  assumes "\<forall>c\<in>set (url_scheme u). c \<le> 0x7F" and "\<forall>c\<in>set (ascii t). c \<le> 0x7F"
    and "protocol u = js t @ js '':''"
  shows "url_scheme u = ascii t"
proof -
  have a: "\<forall>c\<in>set (url_scheme u @ [0x3A]). c \<le> 0x7F" using assms(1) by simp
  have b: "\<forall>c\<in>set (ascii t @ [0x3A]). c \<le> 0x7F" using assms(2) by simp
  have "map of_nat (url_scheme u @ [0x3A]) = (map of_nat (ascii t @ [0x3A]) :: jsstring)"
    using assms(3) to_js_ascii [OF a] by (simp add: protocol_def js_def ascii_def)
  moreover have "\<forall>c\<in>set (url_scheme u @ [0x3A]). c \<le> 0xFFFF"
  proof
    fix c assume "c \<in> set (url_scheme u @ [0x3A])"
    with a have "c \<le> 0x7F" by blast
    then show "c \<le> 0xFFFF" by simp
  qed
  moreover have "\<forall>c\<in>set (ascii t @ [0x3A]). c \<le> 0xFFFF"
  proof
    fix c assume "c \<in> set (ascii t @ [0x3A])"
    with b have "c \<le> 0x7F" by blast
    then show "c \<le> 0xFFFF" by simp
  qed
  ultimately have "url_scheme u @ [0x3A] = ascii t @ [0x3A]" by (rule map_of_nat_eq)
  then show ?thesis by simp
qed

lemma parsed_scheme:
  assumes "URL_new he url = Inr u"
  shows "scheme_of url = Some (url_scheme u)" and "\<forall>c\<in>set (url_scheme u). c \<le> 0x7F"
proof -
  have "basic_URL_parser he (scalar_values (map unat url)) = Some u"
    using assms by (auto simp: URL_new_def split: option.splits)
  then obtain rest where s: "scheme_start_state (url_input (scalar_values (map unat url))) =
      Some (url_scheme u, rest)"
    using basic_URL_parser_scheme by blast
  then show "scheme_of url = Some (url_scheme u)" by (simp add: scheme_of_def)
  from s show "\<forall>c\<in>set (url_scheme u). c \<le> 0x7F" by (rule scheme_start_state_ascii)
qed

lemma parse_scheme_text:
  assumes "scheme_of url \<noteq> Some (ascii ''nfcmsg'')"
  shows "parseMessageFromUrl he (Some url) = Inr None"
proof (cases "URL_new he url")
  case (Inl e)
  then show ?thesis by (rule parse_malformed)
next
  case (Inr u)
  have "protocol u \<noteq> SCHEME @ js '':''"
  proof
    assume "protocol u = SCHEME @ js '':''"
    then have "protocol u = js ''nfcmsg'' @ js '':''" by (simp add: SCHEME_def)
    moreover have "\<forall>c\<in>set (ascii ''nfcmsg''). c \<le> 0x7F" by (simp add: ascii_def)
    ultimately have "url_scheme u = ascii ''nfcmsg''"
      using parsed_scheme(2) [OF Inr] by (intro protocol_scheme)
    with parsed_scheme(1) [OF Inr] assms show False by simp
  qed
  with Inr show ?thesis by (rule parse_other_scheme)
qed

lemma parse_strict_scheme_text:
  assumes "scheme_of url \<noteq> Some (ascii ''https'')"
  shows "parseMessageFromUrl_strict he (Some url) = Inr None"
proof (cases "URL_new he url")
  case (Inl e)
  then show ?thesis by (rule parse_malformed)
next
  case (Inr u)
  have "protocol u \<noteq> SCHEME_strict @ js '':''"
  proof
    assume "protocol u = SCHEME_strict @ js '':''"
    then have "protocol u = js ''https'' @ js '':''" by (simp add: SCHEME_strict_def)
    moreover have "\<forall>c\<in>set (ascii ''https''). c \<le> 0x7F" by (simp add: ascii_def)
    ultimately have "url_scheme u = ascii ''https''"
      using parsed_scheme(2) [OF Inr] by (intro protocol_scheme)
    with parsed_scheme(1) [OF Inr] assms show False by simp
  qed
  with Inr show ?thesis by (rule parse_strict_other_scheme)
qed

lemma scheme_of_examples:
  "scheme_of (js ''https://example.com/read?m=x'') = Some (ascii ''https'')"
  "scheme_of (js ''nfcmsg://read/path'') = Some (ascii ''nfcmsg'')"
  by (simp_all add: scheme_of_def url_defs char_defs)

section \<open>The tag handlers: session release\<close>

text \<open>
  Claim C2. Whatever the platform answers to each call (every awaited call may resolve or
  reject, and a rejection is a throw inside the \<open>try\<close> block), each run of
  \<open>writeToTag\<close> (both source files) and of \<open>readTag\<close> calls
  \<open>cancelTechnologyRequest\<close> exactly once, and it is the last call the handler makes.
\<close>

theorem session_released_exactly_once:
  "count_list (writeToTag p link) CancelTechnologyRequest = 1
   \<and> last (writeToTag p link) = CancelTechnologyRequest
   \<and> count_list (snd (writeToTag_busy p link st)) CancelTechnologyRequest = 1
   \<and> last (snd (writeToTag_busy p link st)) = CancelTechnologyRequest
   \<and> count_list (snd (readTag p st')) CancelTechnologyRequest = 1
   \<and> last (snd (readTag p st')) = CancelTechnologyRequest"
proof -
  have w: "count_list (writeToTag p link) CancelTechnologyRequest = 1
      \<and> last (writeToTag p link) = CancelTechnologyRequest"
    by (simp add: writeToTag_def writeToTag_try_def Let_def split: sum.splits)
  have wb: "count_list (snd (writeToTag_busy p link st)) CancelTechnologyRequest = 1
      \<and> last (snd (writeToTag_busy p link st)) = CancelTechnologyRequest"
    by (simp add: writeToTag_busy_def writeToTag_busy_try_def Let_def split: sum.splits)
  have r: "count_list (snd (readTag p st')) CancelTechnologyRequest = 1
      \<and> last (snd (readTag p st')) = CancelTechnologyRequest"
    by (simp add: readTag_def readTag_try_def Let_def split: sum.splits option.splits)
  from w wb r show ?thesis by simp
qed

section \<open>The tag handlers: a tag with no record\<close>

text \<open>
  Claim C9. When a manual read acquires the session, gets the tag and retrieves a message
  with no record (the message object is \<open>null\<close>, has no \<open>ndefMessage\<close>, or an empty
  one), \<open>readTag\<close> surfaces no error (no \<open>Alert.alert\<close> is among its calls), does not
  set the last message read, sets the read busy flag back to false and releases the
  session.
\<close>

theorem readTag_no_records:
  assumes "requestTechnology p = Inr ()" and "getTag p = Inr ()"
    and "getNdefMessage p = Inr ndef" and "no_records ndef"
  shows "readTag p st =
           (st\<lparr>isReading := False\<rparr>,
            [SetIsReading True, RequestTechnology Ndef, GetTag, GetNdefMessage,
             SetIsReading False, CancelTechnologyRequest])
         \<and> lastRead (fst (readTag p st)) = lastRead st
         \<and> isReading (fst (readTag p st)) = False"
proof -
  have fp: "first_payload ndef = None"
    using assms(4)
    by (auto simp: first_payload_def no_records_def split: option.splits list.splits)
  have r: "readTag p st =
           (st\<lparr>isReading := False\<rparr>,
            [SetIsReading True, RequestTechnology Ndef, GetTag, GetNdefMessage,
             SetIsReading False, CancelTechnologyRequest])"
    using assms(1-3) fp by (simp add: readTag_def readTag_try_def)
  then show ?thesis by simp
qed

theorem readTag_no_records_witness:
  "readTag blank_tag_platform initial_state_busy =
     (initial_state_busy,
      [SetIsReading True, RequestTechnology Ndef, GetTag, GetNdefMessage,
       SetIsReading False, CancelTechnologyRequest])"
  using readTag_no_records [of blank_tag_platform "Some (TagEvent (Some []))" initial_state_busy]
  by (simp add: blank_tag_platform_def no_records_def initial_state_busy_def)

section \<open>The tag handlers: a write that succeeds\<close>

lemma buildDeepLink_hello:
  "buildDeepLink (js ''Hello from NFC'') = Inr (js ''nfcmsg://read?m=Hello%20from%20NFC'')"
  by (simp add: buildDeepLink_def encodeURIComponent_def SCHEME_def HOST_def char_defs)

lemma buildDeepLink_strict_hello:
  "buildDeepLink_strict (js ''Hello from NFC'') =
     Inr (js ''https://nfcmsg.test/read?m=Hello%20from%20NFC'')"
  by (simp add: buildDeepLink_strict_def encodeURIComponent_def SCHEME_strict_def
      HOST_strict_def char_defs)

lemma writeToTag_success:
  assumes "requestTechnology p = Inr ()" and "writeNdefMessage p = Inr ()"
  shows "writeToTag p link =
        [RequestTechnology Ndef, WriteNdefMessage (EncodedMessage [UriRecord link]),
         AlertAlert (js ''Success'') (js ''Wrote tag:\<newline>'' @ link),
         CancelTechnologyRequest]"
  by (simp add: writeToTag_def writeToTag_try_def assms Ndef_encodeMessage_def
      Ndef_uriRecord_def)

lemma writeToTag_busy_success:
  assumes "requestTechnology p = Inr ()" and "writeNdefMessage p = Inr ()"
  shows "writeToTag_busy p link st =
        (st\<lparr>isWriting := False\<rparr>,
         [SetIsWriting True, RequestTechnology Ndef,
          WriteNdefMessage (EncodedMessage [UriRecord link]),
          AlertAlert (js ''Success'') (js ''Wrote tag:\<newline>'' @ link),
          SetIsWriting False, CancelTechnologyRequest])"
  by (simp add: writeToTag_busy_def writeToTag_busy_try_def assms Ndef_encodeMessage_def
      Ndef_uriRecord_def)

text \<open>
  Claim C4. With the draft \<open>Hello from NFC\<close>, the deep link of the render is
  \<open>buildDeepLink\<close> of the draft. When the platform grants the session and reports the
  write done, the handler writes the encoding of a message of one record, the URI record
  of that link, then raises the \<open>Success\<close> alert; in the second source file the write
  busy flag is false afterwards. Stated for both source files (\<open>App.tsx\<close> has no busy
  flag).
\<close>

theorem write_success:
  assumes "input st = js ''Hello from NFC''" and "input st' = js ''Hello from NFC''"
    and "requestTechnology p = Inr ()" and "writeNdefMessage p = Inr ()"
  shows "deepLink st = buildDeepLink (js ''Hello from NFC'')
    \<and> deepLink st = Inr (js ''nfcmsg://read?m=Hello%20from%20NFC'')
    \<and> writeToTag p (js ''nfcmsg://read?m=Hello%20from%20NFC'') =
        [RequestTechnology Ndef,
         WriteNdefMessage (EncodedMessage [UriRecord (js ''nfcmsg://read?m=Hello%20from%20NFC'')]),
         AlertAlert (js ''Success'')
           (js ''Wrote tag:\<newline>'' @ js ''nfcmsg://read?m=Hello%20from%20NFC''),
         CancelTechnologyRequest]
    \<and> deepLink_strict st' = buildDeepLink_strict (js ''Hello from NFC'')
    \<and> deepLink_strict st' = Inr (js ''https://nfcmsg.test/read?m=Hello%20from%20NFC'')
    \<and> writeToTag_busy p (js ''https://nfcmsg.test/read?m=Hello%20from%20NFC'') st' =
        (st'\<lparr>isWriting := False\<rparr>,
         [SetIsWriting True, RequestTechnology Ndef,
          WriteNdefMessage
            (EncodedMessage [UriRecord (js ''https://nfcmsg.test/read?m=Hello%20from%20NFC'')]),
          AlertAlert (js ''Success'')
            (js ''Wrote tag:\<newline>'' @ js ''https://nfcmsg.test/read?m=Hello%20from%20NFC''),
          SetIsWriting False, CancelTechnologyRequest])
    \<and> isWriting
          (fst (writeToTag_busy p (js ''https://nfcmsg.test/read?m=Hello%20from%20NFC'') st'))
        = False"
proof -
  have a: "deepLink st = buildDeepLink (js ''Hello from NFC'')"
    by (simp add: deepLink_def assms(1))
  have b: "deepLink_strict st' = buildDeepLink_strict (js ''Hello from NFC'')"
    by (simp add: deepLink_strict_def assms(2))
  show ?thesis
    using a b writeToTag_success [OF assms(3,4)] writeToTag_busy_success [OF assms(3,4)]
    by (simp add: buildDeepLink_hello buildDeepLink_strict_hello)
qed

theorem write_success_witness:
  "deepLink initial_state = Inr (js ''nfcmsg://read?m=Hello%20from%20NFC'')
   \<and> deepLink_strict initial_state_busy =
       Inr (js ''https://nfcmsg.test/read?m=Hello%20from%20NFC'')
   \<and> writeToTag_busy blank_tag_platform
         (js ''https://nfcmsg.test/read?m=Hello%20from%20NFC'') initial_state_busy =
        (initial_state_busy\<lparr>isWriting := False\<rparr>,
         [SetIsWriting True, RequestTechnology Ndef,
          WriteNdefMessage
            (EncodedMessage [UriRecord (js ''https://nfcmsg.test/read?m=Hello%20from%20NFC'')]),
          AlertAlert (js ''Success'')
            (js ''Wrote tag:\<newline>'' @ js ''https://nfcmsg.test/read?m=Hello%20from%20NFC''),
          SetIsWriting False, CancelTechnologyRequest])"
proof -
  have 1: "input initial_state = js ''Hello from NFC''"
    by (simp add: initial_state_def)
  have 2: "input initial_state_busy = js ''Hello from NFC''"
    by (simp add: initial_state_busy_def)
  have 3: "requestTechnology blank_tag_platform = Inr ()"
    and 4: "writeNdefMessage blank_tag_platform = Inr ()"
    by (simp_all add: blank_tag_platform_def)
  from write_success [OF 1 2 3 4] show ?thesis by blast
qed

section \<open>The listener at a cold start\<close>

lemma URL_new_cold_start:
  "URL_new he (js ''nfcmsg://read?m=Hello%20World'') =
     Inr \<lparr>url_scheme = ascii ''nfcmsg'', url_host = Some (ascii ''read''),
          url_query = Some (ascii ''m=Hello%20World'')\<rparr>"
  by (simp add: url_defs char_defs Let_def)

lemma get_cold_start:
  "searchParams_get \<lparr>url_scheme = sch, url_host = h,
       url_query = Some (ascii ''m=Hello%20World'')\<rparr> (js ''m'') = Some (js ''Hello World'')"
  by (simp add: params_defs url_defs char_defs Let_def)

lemma decode_hello_world: "decodeURIComponent (js ''Hello World'') = Inr (js ''Hello World'')"
  by (simp add: decodeURIComponent_def char_defs)

lemma parse_cold_start:
  "parseMessageFromUrl he (Some (js ''nfcmsg://read?m=Hello%20World'')) =
     Inr (Some (js ''Hello World''))"
proof -
  have ne: "js ''nfcmsg://read?m=Hello%20World'' \<noteq> []" "js ''Hello World'' \<noteq> []"
    by (simp_all add: js_def ascii_def)
  show ?thesis
    by (simp add: parseMessageFromUrl_def parseMessageFromUrl_try_def ne URL_new_cold_start
        protocol_nfcmsg get_cold_start decode_hello_world)
qed

text \<open>
  Claim C8. In \<open>App.tsx\<close> (scheme \<open>nfcmsg\<close>), when the initial URL is
  \<open>nfcmsg://read?m=Hello%20World\<close>, the callback of \<open>getInitialURL\<close> sets the last
  message read to \<open>Hello World\<close>, whatever the state was; no handler of the user
  interface takes part.
\<close>

theorem cold_start_hello_world:
  "getInitialURL_then he (Some (js ''nfcmsg://read?m=Hello%20World'')) st =
     Inr (st\<lparr>lastRead := Some (js ''Hello World'')\<rparr>)"
proof -
  have "truthy (Some (js ''Hello World''))" by (simp add: truthy_def js_def ascii_def)
  then show ?thesis by (simp add: getInitialURL_then_def parse_cold_start)
qed

section \<open>Links of another scheme or host\<close>

text \<open>
  Claim C5. A URL string whose scheme is not the configured one decodes to \<open>null\<close>, in
  both source files; so does a string with no scheme at all. Nothing is assumed of what
  follows the scheme (host, path, query). The same in the words of the code: when the
  URL parser accepts the string and \<open>u.protocol\<close> is not the configured scheme and a
  colon, the result is \<open>null\<close>.
\<close>

theorem scheme_rejection:
  "(scheme_of url \<noteq> Some (ascii ''nfcmsg'')
      \<longrightarrow> parseMessageFromUrl he (Some url) = Inr None)
   \<and> (scheme_of url \<noteq> Some (ascii ''https'')
      \<longrightarrow> parseMessageFromUrl_strict he (Some url) = Inr None)
   \<and> (URL_new he url = Inr u \<and> protocol u \<noteq> SCHEME @ js '':''
      \<longrightarrow> parseMessageFromUrl he (Some url) = Inr None)
   \<and> (URL_new he url = Inr u \<and> protocol u \<noteq> SCHEME_strict @ js '':''
      \<longrightarrow> parseMessageFromUrl_strict he (Some url) = Inr None)"
proof (intro conjI impI)
  assume "scheme_of url \<noteq> Some (ascii ''nfcmsg'')"
  then show "parseMessageFromUrl he (Some url) = Inr None" by (rule parse_scheme_text)
next
  assume "scheme_of url \<noteq> Some (ascii ''https'')"
  then show "parseMessageFromUrl_strict he (Some url) = Inr None"
    by (rule parse_strict_scheme_text)
next
  assume "URL_new he url = Inr u \<and> protocol u \<noteq> SCHEME @ js '':''"
  then show "parseMessageFromUrl he (Some url) = Inr None"
    using parse_other_scheme by blast
next
  assume "URL_new he url = Inr u \<and> protocol u \<noteq> SCHEME_strict @ js '':''"
  then show "parseMessageFromUrl_strict he (Some url) = Inr None"
    using parse_strict_other_scheme by blast
qed

theorem scheme_rejection_witness:
  "scheme_of (js ''https://example.com/read?m=x'') = Some (ascii ''https'')
   \<and> parseMessageFromUrl letter_hosts (Some (js ''https://example.com/read?m=x'')) = Inr None
   \<and> scheme_of (js ''nfcmsg://read/path'') = Some (ascii ''nfcmsg'')
   \<and> parseMessageFromUrl_strict letter_hosts (Some (js ''nfcmsg://read/path'')) = Inr None"
proof -
  have 1: "scheme_of (js ''https://example.com/read?m=x'') \<noteq> Some (ascii ''nfcmsg'')"
    by (simp add: scheme_of_examples ascii_def)
  have 2: "scheme_of (js ''nfcmsg://read/path'') \<noteq> Some (ascii ''https'')"
    by (simp add: scheme_of_examples ascii_def)
  have 3: "URL_new letter_hosts (js ''https://example.com/read?m=x'') =
      Inr \<lparr>url_scheme = ascii ''https'', url_host = Some (ascii ''example.com''),
           url_query = Some (ascii ''m=x'')\<rparr>
    \<and> protocol \<lparr>url_scheme = ascii ''https'', url_host = Some (ascii ''example.com''),
           url_query = Some (ascii ''m=x'')\<rparr> \<noteq> SCHEME @ js '':''"
    using URL_new_example_com protocol_https(2) by simp
  have 4: "URL_new letter_hosts (js ''nfcmsg://read/path'') =
      Inr \<lparr>url_scheme = ascii ''nfcmsg'', url_host = Some (ascii ''read''), url_query = None\<rparr>
    \<and> protocol \<lparr>url_scheme = ascii ''nfcmsg'', url_host = Some (ascii ''read''),
           url_query = None\<rparr> \<noteq> SCHEME_strict @ js '':''"
    using URL_new_no_query(1) protocol_nfcmsg(2) by simp
  have a: "parseMessageFromUrl letter_hosts (Some (js ''https://example.com/read?m=x'')) =
      Inr None"
    using 1 by (rule scheme_rejection [THEN conjunct1, rule_format])
  have b: "parseMessageFromUrl_strict letter_hosts (Some (js ''nfcmsg://read/path'')) = Inr None"
    using 2 by (rule scheme_rejection [THEN conjunct2, THEN conjunct1, rule_format])
  have "parseMessageFromUrl letter_hosts (Some (js ''https://example.com/read?m=x'')) =
      Inr None"
    using 3 by (rule scheme_rejection [THEN conjunct2, THEN conjunct2, THEN conjunct1,
          rule_format])
  moreover have "parseMessageFromUrl_strict letter_hosts (Some (js ''nfcmsg://read/path'')) =
      Inr None"
    using 4 by (rule scheme_rejection [THEN conjunct2, THEN conjunct2, THEN conjunct2,
          rule_format])
  ultimately show ?thesis using a b by (simp add: scheme_of_examples)
qed

text \<open>
  Claim C6. In the source file that checks scheme and host, a URL of the configured
  scheme whose host (\<open>u.hostname\<close>) is not the configured one decodes to \<open>null\<close>.
\<close>

theorem host_rejection:
  assumes "URL_new he url = Inr u" and "protocol u = SCHEME_strict @ js '':''"
    and "hostname u \<noteq> HOST_strict"
  shows "parseMessageFromUrl_strict he (Some url) = Inr None"
  using assms(1,3) by (rule parse_strict_other_host)

theorem host_rejection_witness:
  "parseMessageFromUrl_strict letter_hosts (Some (js ''https://example.com/read?m=x'')) = Inr None"
  using host_rejection [OF URL_new_example_com protocol_https(1) hostname_examples(1)] .

section \<open>Decoding never raises\<close>

text \<open>
  Claim C7. \<open>parseMessageFromUrl\<close> returns a value on every input, it never raises (the
  \<open>catch\<close> block turns every exception of the \<open>try\<close> block into \<open>null\<close>), and it
  returns \<open>null\<close> for \<open>null\<close> or \<open>undefined\<close>, for the empty string, for a string the
  URL parser rejects, for a URL of another scheme, in the second source file for a URL of
  another host, and for a URL that passes these checks and has no parameter \<open>m\<close>. Stated
  for both source files; \<open>App.tsx\<close> does not look at the host.
\<close>

theorem decode_failures_silent:
  "(\<exists>r. parseMessageFromUrl he url = Inr r)
   \<and> (\<exists>r. parseMessageFromUrl_strict he url = Inr r)
   \<and> parseMessageFromUrl he None = Inr None
   \<and> parseMessageFromUrl_strict he None = Inr None
   \<and> parseMessageFromUrl he (Some []) = Inr None
   \<and> parseMessageFromUrl_strict he (Some []) = Inr None
   \<and> (URL_new he s = Inl e
        \<longrightarrow> parseMessageFromUrl he (Some s) = Inr None
          \<and> parseMessageFromUrl_strict he (Some s) = Inr None)
   \<and> (URL_new he s = Inr u \<and> protocol u \<noteq> SCHEME @ js '':''
        \<longrightarrow> parseMessageFromUrl he (Some s) = Inr None)
   \<and> (URL_new he s = Inr u \<and> protocol u \<noteq> SCHEME_strict @ js '':''
        \<longrightarrow> parseMessageFromUrl_strict he (Some s) = Inr None)
   \<and> (URL_new he s = Inr u \<and> hostname u \<noteq> HOST_strict
        \<longrightarrow> parseMessageFromUrl_strict he (Some s) = Inr None)
   \<and> (URL_new he s = Inr u \<and> searchParams_get u (js ''m'') = None
        \<longrightarrow> parseMessageFromUrl he (Some s) = Inr None
          \<and> parseMessageFromUrl_strict he (Some s) = Inr None)"
proof -
  have never: "(\<exists>r. parseMessageFromUrl he url = Inr r)
      \<and> (\<exists>r. parseMessageFromUrl_strict he url = Inr r)"
    using parse_total by simp
  have null: "parseMessageFromUrl he None = Inr None
      \<and> parseMessageFromUrl_strict he None = Inr None
      \<and> parseMessageFromUrl he (Some []) = Inr None
      \<and> parseMessageFromUrl_strict he (Some []) = Inr None"
    by (simp add: parse_null)
  have malformed: "URL_new he s = Inl e
        \<longrightarrow> parseMessageFromUrl he (Some s) = Inr None
          \<and> parseMessageFromUrl_strict he (Some s) = Inr None"
    using parse_malformed by blast
  have scheme: "URL_new he s = Inr u \<and> protocol u \<noteq> SCHEME @ js '':''
        \<longrightarrow> parseMessageFromUrl he (Some s) = Inr None"
    using parse_other_scheme by blast
  have scheme': "URL_new he s = Inr u \<and> protocol u \<noteq> SCHEME_strict @ js '':''
        \<longrightarrow> parseMessageFromUrl_strict he (Some s) = Inr None"
    using parse_strict_other_scheme by blast
  have host: "URL_new he s = Inr u \<and> hostname u \<noteq> HOST_strict
        \<longrightarrow> parseMessageFromUrl_strict he (Some s) = Inr None"
    using parse_strict_other_host by blast
  have param: "URL_new he s = Inr u \<and> searchParams_get u (js ''m'') = None
        \<longrightarrow> parseMessageFromUrl he (Some s) = Inr None
          \<and> parseMessageFromUrl_strict he (Some s) = Inr None"
    using parse_no_parameter by blast
  from never null malformed scheme scheme' host param show ?thesis by (intro conjI) blast+
qed

theorem decode_failures_silent_witness:
  "parseMessageFromUrl letter_hosts (Some (js ''not a url'')) = Inr None
   \<and> parseMessageFromUrl_strict letter_hosts (Some (js ''not a url'')) = Inr None
   \<and> parseMessageFromUrl letter_hosts (Some (js ''https://example.com/read?m=x'')) = Inr None
   \<and> parseMessageFromUrl_strict letter_hosts (Some (js ''https://example.com/read?m=x'')) =
       Inr None
   \<and> parseMessageFromUrl letter_hosts (Some (js ''nfcmsg://read/path'')) = Inr None
   \<and> parseMessageFromUrl_strict letter_hosts (Some (js ''nfcmsg://read/path'')) = Inr None
   \<and> parseMessageFromUrl_strict letter_hosts (Some (js ''https://nfcmsg.test/path'')) = Inr None"
proof -
  note t = decode_failures_silent [THEN conjunct2, THEN conjunct2, THEN conjunct2,
      THEN conjunct2, THEN conjunct2, THEN conjunct2]
  note malformed = t [THEN conjunct1, rule_format]
  note scheme = t [THEN conjunct2, THEN conjunct1, rule_format]
  note scheme' = t [THEN conjunct2, THEN conjunct2, THEN conjunct1, rule_format]
  note host = t [THEN conjunct2, THEN conjunct2, THEN conjunct2, THEN conjunct1, rule_format]
  note param = t [THEN conjunct2, THEN conjunct2, THEN conjunct2, THEN conjunct2, rule_format]
  have 1: "parseMessageFromUrl letter_hosts (Some (js ''not a url'')) = Inr None
      \<and> parseMessageFromUrl_strict letter_hosts (Some (js ''not a url'')) = Inr None"
    using URL_new_not_a_url by (rule malformed)
  have 2: "parseMessageFromUrl letter_hosts (Some (js ''https://example.com/read?m=x'')) =
      Inr None"
    using scheme [OF conjI, OF URL_new_example_com protocol_https(2)] .
  have 3: "parseMessageFromUrl_strict letter_hosts (Some (js ''https://example.com/read?m=x'')) =
      Inr None"
    using host [OF conjI, OF URL_new_example_com hostname_examples(1)] .
  have 4: "parseMessageFromUrl_strict letter_hosts (Some (js ''nfcmsg://read/path'')) = Inr None"
    using scheme' [OF conjI, OF URL_new_no_query(1) protocol_nfcmsg(2)] .
  have 5: "parseMessageFromUrl letter_hosts (Some (js ''nfcmsg://read/path'')) = Inr None"
    using param [OF conjI, OF URL_new_no_query(1) searchParams_get_none] by simp
  have 6: "parseMessageFromUrl_strict letter_hosts (Some (js ''https://nfcmsg.test/path'')) =
      Inr None"
    using param [OF conjI, OF URL_new_no_query(2) searchParams_get_none] by simp
  from 1 2 3 4 5 6 show ?thesis by simp
qed

section \<open>The listener on a link that does not decode\<close>

lemma example_com_absent:
  "parseMessageFromUrl letter_hosts (Some (js ''https://example.com/read?m=x'')) = Inr None"
  using URL_new_example_com protocol_https(2) by (rule parse_other_scheme)

lemma custom_link_absent:
  "parseMessageFromUrl_strict letter_hosts (Some (js ''nfcmsg://read/path'')) = Inr None"
  using URL_new_no_query(1) protocol_nfcmsg(2) by (rule parse_strict_other_scheme)

text \<open>
  Claim C3. When a URL does not decode (\<open>parseMessageFromUrl\<close> returns \<open>null\<close>), the
  listener of the \<open>url\<close> event sets the last message read to \<open>No message found\<close>,
  and the callback of \<open>getInitialURL\<close> leaves the state as it was. In both source
  files.
\<close>

theorem decode_miss_asymmetry:
  "(parseMessageFromUrl he (Some e_url) = Inr None
      \<longrightarrow> url_listener he e_url st = Inr (st\<lparr>lastRead := Some (js ''No message found'')\<rparr>))
   \<and> (parseMessageFromUrl he url = Inr None \<longrightarrow> getInitialURL_then he url st = Inr st)
   \<and> (parseMessageFromUrl_strict he (Some e_url) = Inr None
      \<longrightarrow> url_listener_strict he e_url st' =
          Inr (st'\<lparr>lastRead := Some (js ''No message found'')\<rparr>))
   \<and> (parseMessageFromUrl_strict he url = Inr None
      \<longrightarrow> getInitialURL_then_strict he url st' = Inr st')"
  by (simp add: url_listener_def getInitialURL_then_def url_listener_strict_def
      getInitialURL_then_strict_def truthy_def)

theorem decode_miss_asymmetry_witness:
  "url_listener letter_hosts (js ''https://example.com/read?m=x'') initial_state =
     Inr (initial_state\<lparr>lastRead := Some (js ''No message found'')\<rparr>)
   \<and> getInitialURL_then letter_hosts (Some (js ''https://example.com/read?m=x'')) initial_state =
     Inr initial_state
   \<and> url_listener_strict letter_hosts (js ''nfcmsg://read/path'') initial_state_busy =
     Inr (initial_state_busy\<lparr>lastRead := Some (js ''No message found'')\<rparr>)
   \<and> getInitialURL_then_strict letter_hosts (Some (js ''nfcmsg://read/path''))
       initial_state_busy = Inr initial_state_busy"
proof -
  have 1: "url_listener letter_hosts (js ''https://example.com/read?m=x'') initial_state =
     Inr (initial_state\<lparr>lastRead := Some (js ''No message found'')\<rparr>)"
    using example_com_absent by (rule decode_miss_asymmetry [THEN conjunct1, rule_format])
  have 2: "getInitialURL_then letter_hosts (Some (js ''https://example.com/read?m=x''))
      initial_state = Inr initial_state"
    using example_com_absent
    by (rule decode_miss_asymmetry [THEN conjunct2, THEN conjunct1, rule_format])
  have 3: "url_listener_strict letter_hosts (js ''nfcmsg://read/path'') initial_state_busy =
     Inr (initial_state_busy\<lparr>lastRead := Some (js ''No message found'')\<rparr>)"
    using custom_link_absent
    by (rule decode_miss_asymmetry [THEN conjunct2, THEN conjunct2, THEN conjunct1, rule_format])
  have 4: "getInitialURL_then_strict letter_hosts (Some (js ''nfcmsg://read/path''))
      initial_state_busy = Inr initial_state_busy"
    using custom_link_absent
    by (rule decode_miss_asymmetry [THEN conjunct2, THEN conjunct2, THEN conjunct2, rule_format])
  from 1 2 3 4 show ?thesis by simp
qed

section \<open>The empty message\<close>

lemma URL_new_empty_link:
  "URL_new he (js ''nfcmsg://read?m='') =
     Inr \<lparr>url_scheme = ascii ''nfcmsg'', url_host = Some (ascii ''read''),
          url_query = Some (ascii ''m='')\<rparr>"
  using URL_new_link [of "[]" he] by simp

lemma searchParams_get_empty:
  "searchParams_get \<lparr>url_scheme = sch, url_host = h, url_query = Some (ascii ''m='')\<rparr>
     (js ''m'') = Some []"
  using searchParams_get_m [of "[]"] by (simp add: to_js_def utf8_decode_without_BOM_def)

text \<open>
  Claim C10. \<open>parseMessageFromUrl\<close> never returns the empty string: when the value
  \<open>searchParams.get('m')\<close> finds is empty, the result is \<open>null\<close>. The deep link of the
  empty message is the prefix alone, and it decodes to \<open>null\<close>. In both source files.
\<close>

theorem empty_message_absent:
  "parseMessageFromUrl he url \<noteq> Inr (Some [])
   \<and> parseMessageFromUrl_strict he url \<noteq> Inr (Some [])
   \<and> (URL_new he s = Inr u \<and> searchParams_get u (js ''m'') = Some []
        \<longrightarrow> parseMessageFromUrl he (Some s) = Inr None
          \<and> parseMessageFromUrl_strict he (Some s) = Inr None)
   \<and> buildDeepLink [] = Inr (js ''nfcmsg://read?m='')
   \<and> parseMessageFromUrl he (Some (js ''nfcmsg://read?m='')) = Inr None
   \<and> buildDeepLink_strict [] = Inr (js ''https://nfcmsg.test/read?m='')
   \<and> parseMessageFromUrl_strict he (Some (js ''https://nfcmsg.test/read?m='')) = Inr None"
proof -
  have never: "parseMessageFromUrl he url \<noteq> Inr (Some [])
      \<and> parseMessageFromUrl_strict he url \<noteq> Inr (Some [])"
    using parse_nonempty by simp
  have param: "URL_new he s = Inr u \<and> searchParams_get u (js ''m'') = Some []
        \<longrightarrow> parseMessageFromUrl he (Some s) = Inr None
          \<and> parseMessageFromUrl_strict he (Some s) = Inr None"
    using parse_no_parameter by blast
  have link: "buildDeepLink [] = Inr (js ''nfcmsg://read?m='')
      \<and> parseMessageFromUrl he (Some (js ''nfcmsg://read?m='')) = Inr None"
    using parse_empty_custom by simp
  have link': "buildDeepLink_strict [] = Inr (js ''https://nfcmsg.test/read?m='')
      \<and> parseMessageFromUrl_strict he (Some (js ''https://nfcmsg.test/read?m='')) = Inr None"
    using parse_empty_strict by simp
  from never param link link' show ?thesis by (intro conjI) blast+
qed

theorem empty_message_absent_witness:
  "parseMessageFromUrl letter_hosts (Some (js ''nfcmsg://read?m='')) = Inr None
   \<and> parseMessageFromUrl_strict letter_hosts (Some (js ''nfcmsg://read?m='')) = Inr None"
  using empty_message_absent [THEN conjunct2, THEN conjunct2, THEN conjunct1, rule_format,
      OF conjI, OF URL_new_empty_link searchParams_get_empty] .

section \<open>The round trip of the link codec\<close>

text \<open>
  Three kinds of message do not come back. The empty message decodes to \<open>null\<close>.
  \<open>searchParams.get\<close> returns the value percent-decoded already, and
  \<open>parseMessageFromUrl\<close> decodes it once more: \<open>100%\<close> is written as \<open>100%25\<close>,
  read as \<open>100%\<close>, and \<open>decodeURIComponent\<close> raises URIError on it, which the
  \<open>catch\<close> block turns into \<open>null\<close>; \<open>%41\<close> comes back as \<open>A\<close>. On a message with
  an unpaired surrogate \<open>encodeURIComponent\<close> raises URIError, so there is no link.
\<close>

lemma build_percent:
  "buildDeepLink (js ''100%'') = Inr (js ''nfcmsg://read?m=100%25'')"
  "buildDeepLink_strict (js ''100%'') = Inr (js ''https://nfcmsg.test/read?m=100%25'')"
  "buildDeepLink (js ''%41'') = Inr (js ''nfcmsg://read?m=%2541'')"
  by (simp_all add: buildDeepLink_def buildDeepLink_strict_def encodeURIComponent_def SCHEME_def
      HOST_def SCHEME_strict_def HOST_strict_def char_defs)

lemma build_unpaired:
  "buildDeepLink [0xD800] = Inl URIError"
  "buildDeepLink_strict [0xD800] = Inl URIError"
  by (simp_all add: buildDeepLink_def buildDeepLink_strict_def encodeURIComponent_def char_defs)

lemma URL_new_percent:
  "URL_new he (js ''nfcmsg://read?m=100%25'') =
     Inr \<lparr>url_scheme = ascii ''nfcmsg'', url_host = Some (ascii ''read''),
          url_query = Some (ascii ''m=100%25'')\<rparr>"
  "URL_new letter_hosts (js ''https://nfcmsg.test/read?m=100%25'') =
     Inr \<lparr>url_scheme = ascii ''https'', url_host = Some (ascii ''nfcmsg.test''),
          url_query = Some (ascii ''m=100%25'')\<rparr>"
  "URL_new he (js ''nfcmsg://read?m=%2541'') =
     Inr \<lparr>url_scheme = ascii ''nfcmsg'', url_host = Some (ascii ''read''),
          url_query = Some (ascii ''m=%2541'')\<rparr>"
  by (simp_all add: url_defs char_defs Let_def letter_hosts_def)

lemma get_percent:
  "searchParams_get \<lparr>url_scheme = sch, url_host = h, url_query = Some (ascii ''m=100%25'')\<rparr>
     (js ''m'') = Some (js ''100%'')"
  "searchParams_get \<lparr>url_scheme = sch, url_host = h, url_query = Some (ascii ''m=%2541'')\<rparr>
     (js ''m'') = Some (js ''%41'')"
  by (simp_all add: params_defs url_defs char_defs Let_def)

lemma decode_percent:
  "decodeURIComponent (js ''100%'') = Inl URIError"
  "decodeURIComponent (js ''%41'') = Inr (js ''A'')"
  by (simp_all add: decodeURIComponent_def char_defs leading_ones_def)

lemma parse_percent:
  "parseMessageFromUrl he (Some (js ''nfcmsg://read?m=100%25'')) = Inr None"
  "parseMessageFromUrl_strict letter_hosts (Some (js ''https://nfcmsg.test/read?m=100%25'')) =
     Inr None"
  "parseMessageFromUrl he (Some (js ''nfcmsg://read?m=%2541'')) = Inr (Some (js ''A''))"
proof -
  have ne: "js ''nfcmsg://read?m=100%25'' \<noteq> []" "js ''https://nfcmsg.test/read?m=100%25'' \<noteq> []"
    "js ''nfcmsg://read?m=%2541'' \<noteq> []" "js ''100%'' \<noteq> []" "js ''%41'' \<noteq> []"
    by (simp_all add: js_def ascii_def)
  show "parseMessageFromUrl he (Some (js ''nfcmsg://read?m=100%25'')) = Inr None"
    by (simp add: parseMessageFromUrl_def parseMessageFromUrl_try_def ne URL_new_percent
        protocol_nfcmsg get_percent decode_percent)
  show "parseMessageFromUrl_strict letter_hosts
      (Some (js ''https://nfcmsg.test/read?m=100%25'')) = Inr None"
    by (simp add: parseMessageFromUrl_strict_def parseMessageFromUrl_strict_try_def ne
        URL_new_percent protocol_https hostname_examples get_percent decode_percent)
  show "parseMessageFromUrl he (Some (js ''nfcmsg://read?m=%2541'')) = Inr (Some (js ''A''))"
    by (simp add: parseMessageFromUrl_def parseMessageFromUrl_try_def ne URL_new_percent
        protocol_nfcmsg get_percent decode_percent)
qed

theorem round_trip_counterexample:
  "buildDeepLink (js ''100%'') = Inr (js ''nfcmsg://read?m=100%25'')
   \<and> parseMessageFromUrl letter_hosts (Some (js ''nfcmsg://read?m=100%25'')) = Inr None
   \<and> buildDeepLink_strict (js ''100%'') = Inr (js ''https://nfcmsg.test/read?m=100%25'')
   \<and> parseMessageFromUrl_strict letter_hosts (Some (js ''https://nfcmsg.test/read?m=100%25'')) =
       Inr None
   \<and> buildDeepLink (js ''%41'') = Inr (js ''nfcmsg://read?m=%2541'')
   \<and> parseMessageFromUrl letter_hosts (Some (js ''nfcmsg://read?m=%2541'')) = Inr (Some (js ''A''))
   \<and> buildDeepLink [] = Inr (js ''nfcmsg://read?m='')
   \<and> parseMessageFromUrl letter_hosts (Some (js ''nfcmsg://read?m='')) = Inr None
   \<and> buildDeepLink [0xD800] = Inl URIError
   \<and> buildDeepLink_strict [0xD800] = Inl URIError"
  by (simp add: build_percent parse_percent build_unpaired parse_empty_custom)

text \<open>
  Claim C1, amended. For every message that is not empty, has no unpaired surrogate and
  does not contain the character \<open>%\<close>, \<open>buildDeepLink\<close> returns a link and
  \<open>parseMessageFromUrl\<close> of that link returns the message. This holds in \<open>App.tsx\<close>,
  and in the second source file when the host parser of the platform returns
  \<open>nfcmsg.test\<close> for \<open>nfcmsg.test\<close>.
\<close>

theorem round_trip:
  assumes "s \<noteq> []" and "no_unpaired s" and "0x25 \<notin> set s"
  shows "(\<exists>link. buildDeepLink s = Inr link
            \<and> parseMessageFromUrl he (Some link) = Inr (Some s))
       \<and> (domain_host he (ascii ''nfcmsg.test'') = Some (ascii ''nfcmsg.test'')
            \<longrightarrow> (\<exists>link. buildDeepLink_strict s = Inr link
                  \<and> parseMessageFromUrl_strict he (Some link) = Inr (Some s)))"
  using round_trip_custom [OF assms] round_trip_strict [OF assms] by blast

lemma build_sample:
  "buildDeepLink sample_message =
     Inr (js ''nfcmsg://read?m=a%20b%26c%3Dd%2Be%2F%23%3F%C3%A9%E2%82%AC%F0%9F%98%80'')"
  "buildDeepLink_strict sample_message =
     Inr (js ''https://nfcmsg.test/read?m=a%20b%26c%3Dd%2Be%2F%23%3F%C3%A9%E2%82%AC%F0%9F%98%80'')"
  by (simp_all add: sample_message_def buildDeepLink_def buildDeepLink_strict_def
      encodeURIComponent_def SCHEME_def HOST_def SCHEME_strict_def HOST_strict_def char_defs)

theorem round_trip_witness:
  "parseMessageFromUrl letter_hosts
     (Some (js ''nfcmsg://read?m=a%20b%26c%3Dd%2Be%2F%23%3F%C3%A9%E2%82%AC%F0%9F%98%80'')) =
     Inr (Some sample_message)
   \<and> parseMessageFromUrl_strict letter_hosts
     (Some (js
       ''https://nfcmsg.test/read?m=a%20b%26c%3Dd%2Be%2F%23%3F%C3%A9%E2%82%AC%F0%9F%98%80'')) =
     Inr (Some sample_message)"
proof -
  have 1: "sample_message \<noteq> []" by (simp add: sample_message_def)
  have 2: "no_unpaired sample_message"
    by (simp add: no_unpaired_def sample_message_def char_defs)
  have 3: "0x25 \<notin> set sample_message" by (simp add: sample_message_def js_def ascii_def)
  have 4: "domain_host letter_hosts (ascii ''nfcmsg.test'') = Some (ascii ''nfcmsg.test'')"
    by (simp add: letter_hosts_def char_defs)
  from round_trip [OF 1 2 3, of letter_hosts] 4 show ?thesis
    by (auto simp: build_sample)
qed

end
